theory Spec2Isabelle
  imports Main "HOL-Library.Char_ord" "HOL-Library.List_Lexorder"
begin

section \<open>The C++ library as zooManagement.cpp uses it\<close>

text \<open>
  A \<open>std::string\<close> is a list of bytes. The two characters that \<open>trim\<close> strips are
  the space and the horizontal tab, the line separator is the line feed.
\<close>

definition blanks :: string where
  "blanks = [CHR '' '', CHR 0x09]"

definition newline :: char where
  "newline = CHR 0x0A"

definition find_first_not_of :: "string \<Rightarrow> string \<Rightarrow> nat option" where
  \<comment> \<open>\<open>s.find_first_not_of(cs)\<close>; \<open>None\<close> is \<open>string::npos\<close>.\<close>
  "find_first_not_of s cs =
     (let n = length (takeWhile (\<lambda>c. c \<in> set cs) s)
      in if n = length s then None else Some n)"

definition find_last_not_of :: "string \<Rightarrow> string \<Rightarrow> nat option" where
  \<comment> \<open>\<open>s.find_last_not_of(cs)\<close>; \<open>None\<close> is \<open>string::npos\<close>.\<close>
  "find_last_not_of s cs =
     (let n = length (takeWhile (\<lambda>c. c \<in> set cs) (rev s))
      in if n = length s then None else Some (length s - 1 - n))"

definition substr :: "string \<Rightarrow> nat \<Rightarrow> nat \<Rightarrow> string" where
  \<comment> \<open>\<open>s.substr(pos, n)\<close>. Every call of the program has \<open>pos \<le> s.size()\<close>, where
      no \<open>out_of_range\<close> is thrown.\<close>
  "substr s pos n = take n (drop pos s)"

definition getline :: "char \<Rightarrow> string \<Rightarrow> (string \<times> string) option" where
  \<comment> \<open>\<open>getline(stream, x, d)\<close> on a stream whose unread text is \<open>s\<close>: it fails at the
      end of the text, and otherwise extracts up to the next delimiter, which it
      consumes. The result is the extracted text and the text left unread.\<close>
  "getline d s =
     (if s = [] then None
      else Some (takeWhile (\<lambda>c. c \<noteq> d) s, drop 1 (dropWhile (\<lambda>c. c \<noteq> d) s)))"

definition isspace :: "char \<Rightarrow> bool" where
  \<comment> \<open>The white space of the "C" locale, which \<open>operator>>\<close> and \<open>strtol\<close> skip.\<close>
  "isspace c \<longleftrightarrow> c \<in> set [CHR '' '', CHR 0x09, CHR 0x0A, CHR 0x0B, CHR 0x0C, CHR 0x0D]"

definition isdigit :: "char \<Rightarrow> bool" where
  "isdigit c \<longleftrightarrow> CHR ''0'' \<le> c \<and> c \<le> CHR ''9''"

definition tolower :: "char \<Rightarrow> char" where
  \<comment> \<open>\<open>::tolower\<close> in the "C" locale: only the letters A to Z change.\<close>
  "tolower c =
     (if CHR ''A'' \<le> c \<and> c \<le> CHR ''Z'' then char_of (of_char c + (32::nat)) else c)"

definition extract_word :: "string \<Rightarrow> string \<times> string" where
  \<comment> \<open>\<open>stream >> word\<close> on a fresh \<open>stringstream\<close> over \<open>s\<close>: leading white space is
      skipped, the word runs to the next white space. The result is the word (empty
      when the extraction fails) and the text left unread.\<close>
  "extract_word s =
     (let s' = dropWhile isspace s
      in (takeWhile (\<lambda>c. \<not> isspace c) s', dropWhile (\<lambda>c. \<not> isspace c) s'))"

datatype error = InvalidArgument | OutOfRange

definition digit_value :: "char \<Rightarrow> int" where
  "digit_value c = int (of_char c) - 48"

definition decimal :: "string \<Rightarrow> int" where
  "decimal ds = foldl (\<lambda>a c. 10 * a + digit_value c) 0 ds"

definition stoi :: "string \<Rightarrow> error + int" where
  \<comment> \<open>\<open>std::stoi(s)\<close> with a 32-bit \<open>int\<close>: \<open>strtol\<close> in base 10 reads optional white
      space, an optional sign and the longest run of digits, and ignores what follows;
      \<open>invalid_argument\<close> when there is no digit, \<open>out_of_range\<close> when the value is
      not an \<open>int\<close>.\<close>
  "stoi s =
     (let s1 = dropWhile isspace s;
          neg = (case s1 of [] \<Rightarrow> False | c # _ \<Rightarrow> c = CHR ''-'');
          s2 = (case s1 of [] \<Rightarrow> [] | c # r \<Rightarrow> if c = CHR ''-'' \<or> c = CHR ''+'' then r else s1);
          ds = takeWhile isdigit s2
      in if ds = [] then Inl InvalidArgument
         else let v = (if neg then - decimal ds else decimal ds)
              in if v < - (2 ^ 31) \<or> 2 ^ 31 - 1 < v then Inl OutOfRange else Inr v)"

definition digit_char :: "nat \<Rightarrow> char" where
  "digit_char d = char_of (48 + d)"

function show_nat :: "nat \<Rightarrow> string" where
  "show_nat n = (if n < 10 then [digit_char n] else show_nat (n div 10) @ [digit_char (n mod 10)])"
  by pat_completeness auto
termination
  by (relation "measure id") auto

definition show_int :: "int \<Rightarrow> string" where
  \<comment> \<open>\<open>stream << i\<close> for an \<open>int\<close>.\<close>
  "show_int i = (if i < 0 then CHR ''-'' # show_nat (nat (- i)) else show_nat (nat i))"

text \<open>
  \<open>rand()\<close> is a generator with hidden state, seeded once by \<open>srand\<close>. The state is the
  sequence of values the coming calls return (each in \<open>0 .. RAND_MAX\<close>).
\<close>

type_synonym rng = "nat \<Rightarrow> nat"

definition rand :: "rng \<Rightarrow> nat \<times> rng" where
  "rand g = (g 0, \<lambda>n. g (Suc n))"

text \<open>
  A \<open>std::map<string, vector<string>>\<close> is the list of its entries in iteration order,
  which is the ascending order of the keys (\<open>std::string\<close> compares bytes as unsigned).
\<close>

type_synonym names_map = "(string \<times> string list) list"

definition map_find :: "string \<Rightarrow> names_map \<Rightarrow> (string \<times> string list) option" where
  \<comment> \<open>\<open>m.find(k)\<close>; \<open>None\<close> is \<open>m.end()\<close>.\<close>
  "map_find k m = find (\<lambda>p. fst p = k) m"

fun map_at :: "string \<Rightarrow> (string list \<Rightarrow> string list) \<Rightarrow> names_map \<Rightarrow> names_map" where
  \<comment> \<open>\<open>m[k]\<close> followed by a change \<open>f\<close> of the referenced vector: the entry is
      created with an empty vector when the key is absent.\<close>
  "map_at k f [] = [(k, f [])]"
| "map_at k f ((k', v) # m) =
     (if k = k' then (k', f v) # m
      else if k < k' then (k, f []) # (k', v) # m
      else (k', v) # map_at k f m)"

section \<open>zooManagement.cpp\<close>

definition trim :: "string \<Rightarrow> string" where
  \<comment> \<open>\<open>end\<close> is \<open>npos\<close> only when \<open>start\<close> is, so the last case is never reached; there
      \<open>end - start + 1\<close> wraps around and \<open>substr\<close> returns the rest of the string.\<close>
  "trim s =
     (case find_first_not_of s blanks of
        None \<Rightarrow> []
      | Some start \<Rightarrow>
          (case find_last_not_of s blanks of
             Some end' \<Rightarrow> substr s start (end' - start + 1)
           | None \<Rightarrow> drop start s))"

record 'w Animal =
  age :: int
  species :: string
  birthSeason :: string
  color :: string
  weight :: 'w
  origin :: string
  name :: string

text \<open>
  The type \<open>'w\<close> stands for \<open>double\<close>. What \<open>std::stod\<close> reads and what
  \<open>stream << double\<close> prints depend on the platform's C library, so the two are
  parameters of the functions that call them: \<open>stod :: string \<Rightarrow> error + 'w\<close>
  (\<open>Inl\<close> is the exception thrown) and \<open>show_double :: 'w \<Rightarrow> string\<close>.
\<close>

text \<open>
  The files: the text of each existing file, whether an \<open>ifstream\<close> on an existing file
  opens, and whether an \<open>ofstream\<close> in append mode opens (which creates an absent file).
\<close>

record filesystem =
  contents :: "string \<rightharpoonup> string"
  readable :: "string \<Rightarrow> bool"
  appendable :: "string \<Rightarrow> bool"

definition open_read :: "filesystem \<Rightarrow> string \<Rightarrow> string option" where
  \<comment> \<open>\<open>ifstream file(filename)\<close>; \<open>None\<close> is \<open>!file\<close>.\<close>
  "open_read fs filename =
     (case contents fs filename of
        None \<Rightarrow> None
      | Some text \<Rightarrow> if readable fs filename then Some text else None)"

lemma getline_shorter: "getline d s = Some (x, r) \<Longrightarrow> length r < length s"
proof -
  assume a: "getline d s = Some (x, r)"
  then have ne: "s \<noteq> []" and r: "r = drop 1 (dropWhile (\<lambda>c. c \<noteq> d) s)"
    by (auto simp: getline_def split: if_splits)
  have le: "length (dropWhile (\<lambda>c. c \<noteq> d) s) \<le> length s"
    by (rule length_dropWhile_le)
  show ?thesis
  proof (cases "dropWhile (\<lambda>c. c \<noteq> d) s")
    case Nil
    with ne r show ?thesis by simp
  next
    case (Cons y ys)
    with le r show ?thesis by simp
  qed
qed

function names_fields :: "string \<Rightarrow> names_map \<Rightarrow> string \<Rightarrow> names_map" where
  \<comment> \<open>The inner loop of \<open>loadAnimalNames\<close> over the stream \<open>ss\<close>.\<close>
  "names_fields currentSpecies namesMap ss =
     (case getline CHR '','' ss of
        None \<Rightarrow> namesMap
      | Some (name0, rest) \<Rightarrow>
          (let name1 = trim name0
           in names_fields currentSpecies
                (if name1 \<noteq> [] \<and> currentSpecies \<noteq> []
                 then map_at currentSpecies (\<lambda>v. v @ [name1]) namesMap
                 else namesMap)
                rest))"
  by pat_completeness auto
termination
  by (relation "measure (\<lambda>(c, m, ss). length ss)") (auto dest: getline_shorter)

function names_lines :: "names_map \<times> string \<Rightarrow> string \<Rightarrow> names_map \<times> string" where
  \<comment> \<open>The outer loop of \<open>loadAnimalNames\<close>; the state is \<open>namesMap\<close> and
      \<open>currentSpecies\<close>.\<close>
  "names_lines st file =
     (case getline newline file of
        None \<Rightarrow> st
      | Some (line0, rest) \<Rightarrow>
          (let (namesMap, currentSpecies) = st; line = trim line0
           in if line = [] then names_lines st rest
              else if 6 \<le> length line \<and>
                      (drop (length line - 6) line = ''Names:'' \<or>
                       drop (length line - 6) line = ''names:'')
              then (let currentSpecies' = trim (substr line 0 (length line - 6))
                    in names_lines
                         (map_at currentSpecies' (\<lambda>_. []) namesMap, currentSpecies') rest)
              else names_lines (names_fields currentSpecies namesMap line, currentSpecies) rest))"
  by pat_completeness auto
termination
  by (relation "measure (\<lambda>(st, file). length file)") (auto dest: getline_shorter)

definition loadAnimalNames :: "filesystem \<Rightarrow> string \<Rightarrow> names_map \<times> string" where
  \<comment> \<open>The result is the map and the text written to \<open>cerr\<close>.\<close>
  "loadAnimalNames fs filename =
     (case open_read fs filename of
        None \<Rightarrow> ([], ''Error opening file: '' @ filename @ [newline])
      | Some file \<Rightarrow> (fst (names_lines ([], []) file), []))"

function split_parts :: "string list \<Rightarrow> string \<Rightarrow> string list" where
  \<comment> \<open>The inner loop of \<open>loadArrivingAnimals\<close>.\<close>
  "split_parts parts ss =
     (case getline CHR '','' ss of
        None \<Rightarrow> parts
      | Some (part, rest) \<Rightarrow> split_parts (parts @ [trim part]) rest)"
  by pat_completeness auto
termination
  by (relation "measure (\<lambda>(parts, ss). length ss)") (auto dest: getline_shorter)

definition make_animal :: "(string \<Rightarrow> error + 'w) \<Rightarrow> string list \<Rightarrow> error + 'w Animal" where
  \<comment> \<open>The rest of the loop body, reached with at least six parts: the first exception
      thrown, or the record that is pushed.\<close>
  "make_animal stod parts =
     (let (ageStr, partStream) = extract_word (parts ! 0)
      in case stoi ageStr of
           Inl e \<Rightarrow> Inl e
         | Inr a \<Rightarrow>
             (let species0 = (case getline newline partStream of
                                None \<Rightarrow> []
                              | Some (x, _) \<Rightarrow> x)
              in case stod (parts ! 3) of
                   Inl e \<Rightarrow> Inl e
                 | Inr w \<Rightarrow>
                     Inr \<lparr>age = a, species = trim species0, birthSeason = parts ! 1,
                          color = parts ! 2, weight = w,
                          origin = parts ! 4 @ '' '' @ parts ! 5, name = []\<rparr>))"

function arrival_lines ::
  "(string \<Rightarrow> error + 'w) \<Rightarrow> 'w Animal list \<Rightarrow> string \<Rightarrow> string
     \<Rightarrow> (error + 'w Animal list) \<times> string" where
  \<comment> \<open>The outer loop of \<open>loadArrivingAnimals\<close>; the state is \<open>animals\<close> and the text
      written to \<open>cerr\<close> so far. An exception ends the loop.\<close>
  "arrival_lines stod animals err file =
     (case getline newline file of
        None \<Rightarrow> (Inr animals, err)
      | Some (line0, rest) \<Rightarrow>
          (let line = trim line0
           in if line = [] then arrival_lines stod animals err rest
              else (let parts = split_parts [] line
                    in if length parts < 6
                       then arrival_lines stod animals
                              (err @ ''Invalid record: '' @ line @ [newline]) rest
                       else (case make_animal stod parts of
                               Inl e \<Rightarrow> (Inl e, err)
                             | Inr animal \<Rightarrow>
                                 arrival_lines stod (animals @ [animal]) err rest))))"
  by pat_completeness auto
termination
  by (relation "measure (\<lambda>(stod, animals, err, file). length file)")
     (auto dest: getline_shorter)

definition loadArrivingAnimals ::
  "(string \<Rightarrow> error + 'w) \<Rightarrow> filesystem \<Rightarrow> string \<Rightarrow> (error + 'w Animal list) \<times> string" where
  \<comment> \<open>The result is the vector, or the exception that leaves the function, and the text
      written to \<open>cerr\<close>.\<close>
  "loadArrivingAnimals stod fs filename =
     (case open_read fs filename of
        None \<Rightarrow> (Inr [], ''Error opening file: '' @ filename @ [newline])
      | Some file \<Rightarrow> arrival_lines stod [] [] file)"

definition assignName :: "string \<Rightarrow> names_map \<Rightarrow> rng \<Rightarrow> string \<times> rng" where
  "assignName species' namesMap g =
     (let it = (case map_find species' namesMap of
                  Some e \<Rightarrow> Some e
                | None \<Rightarrow>
                    (case find (\<lambda>pair. map tolower (fst pair) = map tolower species') namesMap of
                       Some pair \<Rightarrow> map_find (fst pair) namesMap
                     | None \<Rightarrow> None))
      in case it of
           Some e \<Rightarrow>
             if snd e \<noteq> [] then
               (let (r, g') = rand g; index = r mod length (snd e) in (snd e ! index, g'))
             else (''Unnamed'', g)
         | None \<Rightarrow> (''Unnamed'', g))"

definition animal_line :: "('w \<Rightarrow> string) \<Rightarrow> 'w Animal \<Rightarrow> string" where
  \<comment> \<open>What one round of the loop of \<open>updateZooPopulation\<close> writes.\<close>
  "animal_line show_double animal =
     name animal @ '', '' @ species animal @ '', '' @ show_int (age animal) @ '', '' @
     birthSeason animal @ '', '' @ color animal @ '', '' @
     show_double (weight animal) @ '', '' @ origin animal @ [newline]"

definition updateZooPopulation ::
  "('w \<Rightarrow> string) \<Rightarrow> filesystem \<Rightarrow> string \<Rightarrow> 'w Animal list \<Rightarrow> filesystem \<times> string" where
  \<comment> \<open>The result is the files after the call and the text written to \<open>cerr\<close>.\<close>
  "updateZooPopulation show_double fs filename animals =
     (if \<not> appendable fs filename
      then (fs, ''Error opening file for writing: '' @ filename @ [newline])
      else (fs\<lparr>contents := (contents fs)(filename \<mapsto>
                   (case contents fs filename of None \<Rightarrow> [] | Some old \<Rightarrow> old) @
                   concat (map (animal_line show_double) animals))\<rparr>, []))"

fun assign_names :: "names_map \<Rightarrow> 'w Animal list \<Rightarrow> rng \<Rightarrow> 'w Animal list \<times> rng" where
  \<comment> \<open>The loop of \<open>main\<close> that names the arrivals in list order.\<close>
  "assign_names namesMap [] g = ([], g)"
| "assign_names namesMap (animal # animals) g =
     (let (n, g') = assignName (species animal) namesMap g;
          (animals', g'') = assign_names namesMap animals g'
      in (animal\<lparr>name := n\<rparr> # animals', g''))"

function display :: "string \<Rightarrow> string" where
  \<comment> \<open>The loop of \<open>main\<close> that prints the report: the text written to \<open>cout\<close>.\<close>
  "display file =
     (case getline newline file of
        None \<Rightarrow> []
      | Some (line, rest) \<Rightarrow> line @ [newline] @ display rest)"
  by pat_completeness auto
termination
  by (relation "measure length") (auto dest: getline_shorter)

datatype outcome = Exit int | Terminate error

record 'w run =
  status :: outcome
  written :: "'w Animal list"
  cout :: string
  cerr :: string
  disk :: filesystem

definition main ::
  "(string \<Rightarrow> error + 'w) \<Rightarrow> ('w \<Rightarrow> string) \<Rightarrow> filesystem \<Rightarrow> rng \<Rightarrow> 'w run" where
  \<comment> \<open>A run of the program: \<open>Exit n\<close> is \<open>return n\<close>; \<open>Terminate e\<close> is the uncaught
      exception \<open>e\<close>, on which \<open>std::terminate\<close> aborts the process without a return
      from \<open>main\<close>. \<open>written\<close> is the vector handed to \<open>updateZooPopulation\<close>.\<close>
  "main stod show_double fs g =
     (let (animalNamesMap, err1) = loadAnimalNames fs ''animalNames.txt'';
          (loaded, err2) = loadArrivingAnimals stod fs ''arrivingAnimals.txt''
      in case loaded of
           Inl e \<Rightarrow>
             \<lparr>status = Terminate e, written = [], cout = [], cerr = err1 @ err2, disk = fs\<rparr>
         | Inr arrivingAnimals \<Rightarrow>
             (let (named, g') = assign_names animalNamesMap arrivingAnimals g;
                  (fs', err3) = updateZooPopulation show_double fs ''newAnimals.txt'' named;
                  out1 = ''Zoo population updated successfully.'' @ [newline]
              in case open_read fs' ''newAnimals.txt'' of
                   None \<Rightarrow>
                     \<lparr>status = Exit 1, written = named, cout = out1,
                      cerr = err1 @ err2 @ err3 @ ''Error opening newAnimals file.'' @ [newline],
                      disk = fs'\<rparr>
                 | Some file \<Rightarrow>
                     \<lparr>status = Exit 0, written = named,
                      cout = out1 @ [newline] @ ''Updated Zoo Population:'' @ [newline] @
                             display file,
                      cerr = err1 @ err2 @ err3, disk = fs'\<rparr>))"

section \<open>Vocabulary for the properties\<close>

definition constant_rng :: "nat \<Rightarrow> rng" where
  \<comment> \<open>A random source whose every draw is \<open>n\<close>.\<close>
  "constant_rng n = (\<lambda>_. n)"

definition candidate_of :: "string \<Rightarrow> names_map \<Rightarrow> string \<Rightarrow> bool" where
  \<comment> \<open>\<open>n\<close> is one of the candidates stored under the key.\<close>
  "candidate_of key namesMap n =
     (case map_find key namesMap of None \<Rightarrow> False | Some e \<Rightarrow> n \<in> set (snd e))"

definition disk_of :: "(string \<times> string) list \<Rightarrow> filesystem" where
  \<comment> \<open>The files listed, each of which can be read, in a directory where every file can
      be opened for appending.\<close>
  "disk_of files = \<lparr>contents = map_of files, readable = (\<lambda>_. True), appendable = (\<lambda>_. True)\<rparr>"

function getlines :: "char \<Rightarrow> string \<Rightarrow> string list" where
  \<comment> \<open>What the successive calls of \<open>getline\<close> in a \<open>while (getline(stream, x, d))\<close>
      loop extract from the text \<open>s\<close>.\<close>
  "getlines d s =
     (case getline d s of
        None \<Rightarrow> []
      | Some (x, rest) \<Rightarrow> x # getlines d rest)"
  by pat_completeness auto
termination
  by (relation "measure (\<lambda>(d, s). length s)") (auto dest: getline_shorter)

definition names_field :: "string \<Rightarrow> names_map \<Rightarrow> string \<Rightarrow> names_map" where
  \<comment> \<open>One round of the inner loop of \<open>loadAnimalNames\<close>.\<close>
  "names_field currentSpecies namesMap name0 =
     (let name1 = trim name0
      in if name1 \<noteq> [] \<and> currentSpecies \<noteq> []
         then map_at currentSpecies (\<lambda>v. v @ [name1]) namesMap
         else namesMap)"

definition is_header :: "string \<Rightarrow> bool" where
  \<comment> \<open>The test of \<open>loadAnimalNames\<close> for a header line.\<close>
  "is_header line \<longleftrightarrow>
     6 \<le> length line \<and>
     (drop (length line - 6) line = ''Names:'' \<or> drop (length line - 6) line = ''names:'')"

definition names_line :: "names_map \<times> string \<Rightarrow> string \<Rightarrow> names_map \<times> string" where
  \<comment> \<open>One round of the outer loop of \<open>loadAnimalNames\<close>.\<close>
  "names_line st line0 =
     (let line = trim line0
      in if line = [] then st
         else if is_header line
         then (let currentSpecies' = trim (substr line 0 (length line - 6))
               in (map_at currentSpecies' (\<lambda>_. []) (fst st), currentSpecies'))
         else (foldl (names_field (snd st)) (fst st) (getlines CHR '','' line), snd st))"

definition invalid_record :: "string \<Rightarrow> string" where
  \<comment> \<open>The diagnostic of \<open>loadArrivingAnimals\<close> for a line.\<close>
  "invalid_record line = ''Invalid record: '' @ line @ [newline]"

fun arrival_list ::
  "(string \<Rightarrow> error + 'w) \<Rightarrow> 'w Animal list \<Rightarrow> string \<Rightarrow> string list
     \<Rightarrow> (error + 'w Animal list) \<times> string" where
  \<comment> \<open>The outer loop of \<open>loadArrivingAnimals\<close> over the lines that \<open>getline\<close> yields.\<close>
  "arrival_list stod animals err [] = (Inr animals, err)"
| "arrival_list stod animals err (line0 # rest) =
     (let line = trim line0
      in if line = [] then arrival_list stod animals err rest
         else (let parts = split_parts [] line
               in if length parts < 6
                  then arrival_list stod animals (err @ invalid_record line) rest
                  else (case make_animal stod parts of
                          Inl e \<Rightarrow> (Inl e, err)
                        | Inr animal \<Rightarrow> arrival_list stod (animals @ [animal]) err rest)))"

definition record_lines :: "string \<Rightarrow> string list" where
  \<comment> \<open>The trimmed lines of a text that are not blank, in order.\<close>
  "record_lines inp = filter (\<lambda>l. l \<noteq> []) (map trim (getlines newline inp))"

text \<open>
  An instance of the two parameters for the closed examples: a plain decimal literal is
  read exactly, as a mantissa and a number of fraction digits, and printed without
  trailing zeros, the way a C++ platform reads and prints a short literal such as
  \<open>45.5\<close>.
\<close>

definition stod_decimal :: "string \<Rightarrow> error + (int \<times> nat)" where
  "stod_decimal s =
     (let s1 = dropWhile isspace s;
          neg = (case s1 of [] \<Rightarrow> False | c # _ \<Rightarrow> c = CHR ''-'');
          s2 = (case s1 of [] \<Rightarrow> [] | c # r \<Rightarrow> if c = CHR ''-'' \<or> c = CHR ''+'' then r else s1);
          ip = takeWhile isdigit s2;
          fp = (case dropWhile isdigit s2 of
                  [] \<Rightarrow> []
                | c # r \<Rightarrow> if c = CHR ''.'' then takeWhile isdigit r else [])
      in if ip = [] \<and> fp = [] then Inl InvalidArgument
         else Inr ((if neg then - decimal (ip @ fp) else decimal (ip @ fp)), length fp))"

definition show_decimal :: "int \<times> nat \<Rightarrow> string" where
  "show_decimal w =
     (let a = nat \<bar>fst w\<bar>; k = snd w;
          whole = show_nat (a div 10 ^ k);
          frac = show_nat (a mod 10 ^ k);
          padded = replicate (k - length frac) CHR ''0'' @ frac
      in (if fst w < 0 then ''-'' else []) @ whole @
         (if a mod 10 ^ k = 0 then []
          else CHR ''.'' # rev (dropWhile (\<lambda>c. c = CHR ''0'') (rev padded))))"

definition arrivals_example :: string where
  \<comment> \<open>An arrivals file: two records, a blank line and a line of four fields.\<close>
  "arrivals_example =
     ''4 Hyena, born in spring, brown, 45.5, savanna, east'' @ [newline] @
     ''  '' @ [newline] @
     ''only, four, fields, here'' @ [newline] @
     ''12 Lion, born in fall, tan, 190, zoo, north'' @ [newline]"

definition empty_key_empty :: "names_map \<Rightarrow> bool" where
  \<comment> \<open>The empty string, if it is a key, has no candidates.\<close>
  "empty_key_empty m \<longleftrightarrow> (case map_find [] m of None \<Rightarrow> True | Some e \<Rightarrow> snd e = [])"

definition names_example :: string where
  \<comment> \<open>A names file whose first header has no species.\<close>
  "names_example =
     ''Names:'' @ [newline] @ ''Rex, Max'' @ [newline] @
     ''Lion Names:'' @ [newline] @ ''Leo'' @ [newline]"

definition names_scenario :: string where
  \<comment> \<open>The names file of the end-to-end scenario, without the end of its last line.\<close>
  "names_scenario =
     ''Hyena Names:'' @ [newline] @ ''Spot, Scar'' @ [newline] @
     ''Lion Names:'' @ [newline] @ ''Leo, Nala''"

definition arrivals_scenario :: string where
  \<comment> \<open>The single line of the arrivals file of the end-to-end scenario.\<close>
  "arrivals_scenario = ''4 Hyena, born in spring, brown, 45.5, savanna, east''"

definition zoo_example :: filesystem where
  \<comment> \<open>The names file and the arrivals file of the end-to-end scenario, and no report yet.\<close>
  "zoo_example =
     disk_of
       [(''animalNames.txt'', names_scenario @ [newline]),
        (''arrivingAnimals.txt'', arrivals_scenario @ [newline])]"

definition unreadable :: "filesystem \<Rightarrow> filesystem" where
  \<comment> \<open>The same files, none of which can be opened for reading.\<close>
  "unreadable fs = fs\<lparr>readable := (\<lambda>_. False)\<rparr>"

definition report :: "filesystem \<Rightarrow> string" where
  \<comment> \<open>The text of the report file; empty when the file does not exist.\<close>
  "report fs = (case contents fs ''newAnimals.txt'' of None \<Rightarrow> [] | Some old \<Rightarrow> old)"

definition line_count :: "string \<Rightarrow> nat" where
  \<comment> \<open>The number of lines that the display loop of \<open>main\<close> reads from a text.\<close>
  "line_count inp = length (getlines newline inp)"

definition record_text :: "('w \<Rightarrow> string) \<Rightarrow> 'w Animal \<Rightarrow> string" where
  \<comment> \<open>What \<open>updateZooPopulation\<close> writes for a record, without the final line feed.\<close>
  "record_text show_double animal =
     name animal @ '', '' @ species animal @ '', '' @ show_int (age animal) @ '', '' @
     birthSeason animal @ '', '' @ color animal @ '', '' @
     show_double (weight animal) @ '', '' @ origin animal"

definition one_line :: "('w \<Rightarrow> string) \<Rightarrow> 'w Animal \<Rightarrow> bool" where
  \<comment> \<open>No field of the record is printed with a line feed in it.\<close>
  "one_line show_double animal \<longleftrightarrow> newline \<notin> set (record_text show_double animal)"

definition abort_example :: filesystem where
  \<comment> \<open>No names file, an arrivals file whose age does not parse, and an earlier report.\<close>
  "abort_example =
     disk_of
       [(''arrivingAnimals.txt'', ''x Hyena, a, b, 1, c, d'' @ [newline]),
        (''newAnimals.txt'', ''Rex, Lion, 3, born in fall, tan, 190, zoo north'' @ [newline])]"

definition second_example :: filesystem where
  \<comment> \<open>The start of a second run of the scenario: the same arrivals file, the report that
      a first run with the draw 0 left, and no names file.\<close>
  "second_example =
     disk_of
       [(''arrivingAnimals.txt'', arrivals_scenario @ [newline]),
        (''newAnimals.txt'',
         ''Spot, Hyena, 4, born in spring, brown, 45.5, savanna east'' @ [newline])]"

section \<open>The loops over the lines and fields of a text\<close>

declare show_nat.simps [simp del] getlines.simps [simp del] names_fields.simps [simp del] names_lines.simps [simp del]
  split_parts.simps [simp del] arrival_lines.simps [simp del] display.simps [simp del]

lemma getline_Nil [simp]: "getline d [] = None"
  by (simp add: getline_def)

lemma getline_Cons:
  "getline d (c # s) =
     (if c = d then Some ([], s)
      else Some (c # takeWhile (\<lambda>c. c \<noteq> d) s, drop 1 (dropWhile (\<lambda>c. c \<noteq> d) s)))"
  by (simp add: getline_def)

lemma getlines_None: "getline d s = None \<Longrightarrow> getlines d s = []"
  by (subst getlines.simps) simp

lemma getlines_Some: "getline d s = Some (x, r) \<Longrightarrow> getlines d s = x # getlines d r"
  by (subst getlines.simps) simp

lemma getlines_Nil [simp]: "getlines d [] = []"
  by (simp add: getlines_None)

lemma getlines_Cons:
  "getlines d (c # s) =
     (if c = d then [] # getlines d s
      else (case getlines d s of [] \<Rightarrow> [[c]] | l # ls \<Rightarrow> (c # l) # ls))"
proof (cases "c = d")
  case True
  then have "getline d (c # s) = Some ([], s)" by (simp add: getline_Cons)
  then show ?thesis using True by (simp add: getlines_Some)
next
  case False
  then have c: "getline d (c # s) =
      Some (c # takeWhile (\<lambda>c. c \<noteq> d) s, drop 1 (dropWhile (\<lambda>c. c \<noteq> d) s))"
    by (simp add: getline_Cons)
  show ?thesis
  proof (cases s)
    case Nil
    with False c show ?thesis by (simp add: getlines_Some)
  next
    case (Cons y ys)
    then have "getline d s = Some (takeWhile (\<lambda>c. c \<noteq> d) s, drop 1 (dropWhile (\<lambda>c. c \<noteq> d) s))"
      by (simp add: getline_def)
    then have "getlines d s =
        takeWhile (\<lambda>c. c \<noteq> d) s # getlines d (drop 1 (dropWhile (\<lambda>c. c \<noteq> d) s))"
      by (rule getlines_Some)
    with False c show ?thesis by (simp add: getlines_Some)
  qed
qed

lemma names_fields_fold:
  "names_fields cur m ss = foldl (names_field cur) m (getlines CHR '','' ss)"
proof (induction "length ss" arbitrary: m ss rule: less_induct)
  case less
  show ?case
  proof (cases "getline CHR '','' ss")
    case None
    then show ?thesis
      by (subst names_fields.simps) (simp add: getlines_None)
  next
    case (Some p)
    obtain x rest where p: "p = (x, rest)" by (cases p)
    have short: "length rest < length ss"
      using Some p by (auto dest: getline_shorter)
    have "names_fields cur m ss = names_fields cur (names_field cur m x) rest"
      using Some p by (subst names_fields.simps) (simp add: names_field_def Let_def)
    also have "\<dots> = foldl (names_field cur) (names_field cur m x) (getlines CHR '','' rest)"
      using short by (rule less)
    finally show ?thesis
      using Some p by (simp add: getlines_Some)
  qed
qed

lemma names_lines_fold:
  "names_lines st inp = foldl names_line st (getlines newline inp)"
proof (induction "length inp" arbitrary: st inp rule: less_induct)
  case less
  show ?case
  proof (cases "getline newline inp")
    case None
    then show ?thesis
      by (subst names_lines.simps) (simp add: getlines_None)
  next
    case (Some p)
    obtain x rest where p: "p = (x, rest)" by (cases p)
    have short: "length rest < length inp"
      using Some p by (auto dest: getline_shorter)
    have "names_lines st inp = names_lines (names_line st x) rest"
      using Some p
      by (subst names_lines.simps)
         (auto simp: names_line_def is_header_def Let_def names_fields_fold split_beta)
    also have "\<dots> = foldl names_line (names_line st x) (getlines newline rest)"
      using short by (rule less)
    finally show ?thesis
      using Some p by (simp add: getlines_Some)
  qed
qed

lemma split_parts_map: "split_parts parts ss = parts @ map trim (getlines CHR '','' ss)"
proof (induction "length ss" arbitrary: parts ss rule: less_induct)
  case less
  show ?case
  proof (cases "getline CHR '','' ss")
    case None
    then show ?thesis
      by (subst split_parts.simps) (simp add: getlines_None)
  next
    case (Some p)
    obtain x rest where p: "p = (x, rest)" by (cases p)
    have short: "length rest < length ss"
      using Some p by (auto dest: getline_shorter)
    have "split_parts parts ss = split_parts (parts @ [trim x]) rest"
      using Some p by (subst split_parts.simps) simp
    also have "\<dots> = (parts @ [trim x]) @ map trim (getlines CHR '','' rest)"
      using short by (rule less)
    finally show ?thesis
      using Some p by (simp add: getlines_Some)
  qed
qed

lemma display_concat: "display inp = concat (map (\<lambda>l. l @ [newline]) (getlines newline inp))"
proof (induction "length inp" arbitrary: inp rule: less_induct)
  case less
  show ?case
  proof (cases "getline newline inp")
    case None
    then show ?thesis
      by (subst display.simps) (simp add: getlines_None)
  next
    case (Some p)
    obtain x rest where p: "p = (x, rest)" by (cases p)
    have short: "length rest < length inp"
      using Some p by (auto dest: getline_shorter)
    have "display inp = x @ [newline] @ display rest"
      using Some p by (subst display.simps) simp
    also have "display rest = concat (map (\<lambda>l. l @ [newline]) (getlines newline rest))"
      using short by (rule less)
    finally show ?thesis
      using Some p by (simp add: getlines_Some)
  qed
qed

lemma arrival_lines_list:
  "arrival_lines stod animals err inp = arrival_list stod animals err (getlines newline inp)"
proof (induction "length inp" arbitrary: animals err inp rule: less_induct)
  case less
  show ?case
  proof (cases "getline newline inp")
    case None
    then show ?thesis
      by (subst arrival_lines.simps) (simp add: getlines_None)
  next
    case (Some p)
    obtain x rest where p: "p = (x, rest)" by (cases p)
    have short: "length rest < length inp"
      using Some p by (auto dest: getline_shorter)
    have IH: "\<And>animals err. arrival_lines stod animals err rest =
                arrival_list stod animals err (getlines newline rest)"
      using short by (rule less)
    have "arrival_lines stod animals err inp = arrival_list stod animals err (x # getlines newline rest)"
      using Some p
      by (subst arrival_lines.simps)
         (simp add: IH Let_def invalid_record_def split: sum.splits)
    then show ?thesis
      using Some p by (simp add: getlines_Some)
  qed
qed

section \<open>The name assigner\<close>

lemma assignName_exact:
  assumes "map_find sp m = Some e"
  shows "assignName sp m g =
           (if snd e = [] then (''Unnamed'', g)
            else (snd e ! (g 0 mod length (snd e)), \<lambda>n. g (Suc n)))"
  using assms by (simp add: assignName_def rand_def)

lemma find_first_key:
  assumes "find P m = Some p" and "\<And>q. fst q = fst p \<Longrightarrow> P q"
  shows "map_find (fst p) m = Some p"
  using assms
proof (induction m)
  case Nil
  then show ?case by simp
next
  case (Cons x m)
  show ?case
  proof (cases "P x")
    case True
    with Cons.prems(1) have "x = p" by simp
    then show ?thesis by (simp add: map_find_def)
  next
    case False
    with Cons.prems(2) have ne: "fst x \<noteq> fst p" by blast
    from False Cons.prems(1) have "find P m = Some p" by simp
    then have "map_find (fst p) m = Some p"
      using Cons.IH Cons.prems(2) by blast
    with ne show ?thesis by (simp add: map_find_def)
  qed
qed

lemma assignName_scan:
  assumes "map_find sp m = None"
    and "find (\<lambda>pair. map tolower (fst pair) = map tolower sp) m = Some e"
  shows "assignName sp m g =
           (if snd e = [] then (''Unnamed'', g)
            else (snd e ! (g 0 mod length (snd e)), \<lambda>n. g (Suc n)))"
proof -
  have "map tolower (fst e) = map tolower sp"
    using assms(2) by (auto simp: find_Some_iff)
  then have "map_find (fst e) m = Some e"
    using find_first_key [OF assms(2)] by simp
  then show ?thesis
    using assms by (simp add: assignName_def rand_def)
qed

lemma assignName_no_match:
  assumes "map_find sp m = None"
    and "find (\<lambda>pair. map tolower (fst pair) = map tolower sp) m = None"
  shows "assignName sp m g = (''Unnamed'', g)"
  using assms by (simp add: assignName_def)

lemma tolower_lion: "map tolower ''Lion'' = ''lion''" "map tolower ''lion'' = ''lion''"
  by code_simp+

text \<open>
  C4. With an empty catalog, \<open>assignName\<close> returns exactly \<open>Unnamed\<close> for every species
  string, and draws nothing from the random source.
\<close>

theorem assignName_empty_catalog:
  "assignName sp [] g = (''Unnamed'', g)"
  by (simp add: assignName_def map_find_def)

text \<open>
  C10. When the species is itself a key of the catalog and the vector stored under it is
  empty, \<open>assignName\<close> returns \<open>Unnamed\<close> and draws nothing, whatever else the catalog
  holds: the scan that ignores case belongs to the branch of a failed exact lookup, so a
  key of another case with candidates is not looked at.
\<close>

theorem assignName_exact_empty:
  "map_find sp namesMap = Some e \<Longrightarrow> snd e = [] \<Longrightarrow>
     assignName sp namesMap g = (''Unnamed'', g)"
  by (simp add: assignName_exact)

theorem assignName_exact_empty_witness:
  "map_find ''Hyena'' [(''Hyena'', []), (''hyena'', [''Spot''])] = Some (''Hyena'', []) \<and>
   snd (''Hyena'', [] :: string list) = [] \<and>
   assignName ''Hyena'' [(''Hyena'', []), (''hyena'', [''Spot''])] (constant_rng 0) =
     (''Unnamed'', constant_rng 0)"
proof -
  have h: "map_find ''Hyena'' [(''Hyena'', []), (''hyena'', [''Spot''])] = Some (''Hyena'', [])"
    by (simp add: map_find_def)
  show ?thesis
    using h assignName_exact_empty [OF h, of "constant_rng 0"] by simp
qed

text \<open>
  C2, as stated, fails: in the catalog with the keys \<open>Hyena\<close> (no candidates) and
  \<open>hyena\<close> (candidate \<open>Spot\<close>), the name assigned to species \<open>Hyena\<close> is \<open>Unnamed\<close>,
  which is not a candidate stored under \<open>Hyena\<close>.
\<close>

theorem assignName_exact_priority_counterexample:
  "map_find ''Hyena'' [(''Hyena'', []), (''hyena'', [''Spot''])] \<noteq> None \<and>
   map_find ''hyena'' [(''Hyena'', []), (''hyena'', [''Spot''])] \<noteq> None \<and>
   fst (assignName ''Hyena'' [(''Hyena'', []), (''hyena'', [''Spot''])] (constant_rng 0)) =
     ''Unnamed'' \<and>
   \<not> candidate_of ''Hyena'' [(''Hyena'', []), (''hyena'', [''Spot''])]
        (fst (assignName ''Hyena'' [(''Hyena'', []), (''hyena'', [''Spot''])] (constant_rng 0)))"
  by (simp add: map_find_def candidate_of_def assignName_def)

text \<open>
  C2, amended. In every catalog that has both \<open>Hyena\<close> and \<open>hyena\<close> as keys, and for
  every random draw, the name assigned to species \<open>Hyena\<close> is decided by the vector
  stored under \<open>Hyena\<close> alone: it is the element of that vector at index
  \<open>draw mod size\<close>, hence one of its candidates, when the vector is not empty, and
  \<open>Unnamed\<close> when it is empty. The vector under \<open>hyena\<close> is not consulted.
\<close>

theorem assignName_exact_priority:
  assumes "map_find ''Hyena'' namesMap = Some e" and "map_find ''hyena'' namesMap = Some e'"
  shows "fst (assignName ''Hyena'' namesMap g) =
           (if snd e = [] then ''Unnamed'' else snd e ! (g 0 mod length (snd e))) \<and>
         (snd e \<noteq> [] \<longrightarrow>
            candidate_of ''Hyena'' namesMap (fst (assignName ''Hyena'' namesMap g)))"
  using assms(1) by (simp add: assignName_exact candidate_of_def)

theorem assignName_exact_priority_witness:
  "map_find ''Hyena'' [(''Hyena'', [''Scar'']), (''hyena'', [''Spot''])] = Some (''Hyena'', [''Scar'']) \<and>
   map_find ''hyena'' [(''Hyena'', [''Scar'']), (''hyena'', [''Spot''])] = Some (''hyena'', [''Spot'']) \<and>
   fst (assignName ''Hyena'' [(''Hyena'', [''Scar'']), (''hyena'', [''Spot''])] (constant_rng 7)) =
     ''Scar'' \<and>
   candidate_of ''Hyena'' [(''Hyena'', [''Scar'']), (''hyena'', [''Spot''])]
     (fst (assignName ''Hyena'' [(''Hyena'', [''Scar'']), (''hyena'', [''Spot''])] (constant_rng 7)))"
proof -
  have h1: "map_find ''Hyena'' [(''Hyena'', [''Scar'']), (''hyena'', [''Spot''])] =
              Some (''Hyena'', [''Scar''])"
    by (simp add: map_find_def)
  have h2: "map_find ''hyena'' [(''Hyena'', [''Scar'']), (''hyena'', [''Spot''])] =
              Some (''hyena'', [''Spot''])"
    by (simp add: map_find_def)
  show ?thesis
    using h1 h2 assignName_exact_priority [OF h1 h2, of "constant_rng 7"]
    by (simp add: candidate_of_def)
qed

text \<open>
  C3. For the catalog with the single key \<open>Lion\<close> and the candidates \<open>Leo\<close> and \<open>Nala\<close>,
  the name assigned to species \<open>lion\<close> is \<open>Leo\<close> or \<open>Nala\<close> for every random draw, never
  \<open>Unnamed\<close>. In general, when no key equals the species, the entry used is the first
  one, in the iteration order of the catalog, whose key equals the species after both
  are lowercased, and the name is the element of its vector at index \<open>draw mod size\<close>
  (or \<open>Unnamed\<close> if that vector is empty).
\<close>

theorem assignName_case_insensitive:
  "fst (assignName ''lion'' [(''Lion'', [''Leo'', ''Nala''])] g) \<in> {''Leo'', ''Nala''} \<and>
   (map_find sp m = None \<and>
    find (\<lambda>pair. map tolower (fst pair) = map tolower sp) m = Some e \<longrightarrow>
      fst (assignName sp m g') =
        (if snd e = [] then ''Unnamed'' else snd e ! (g' 0 mod length (snd e))))"
proof -
  have n: "map_find ''lion'' [(''Lion'', [''Leo'', ''Nala''])] = None"
    by (simp add: map_find_def)
  have f: "find (\<lambda>pair. map tolower (fst pair) = map tolower ''lion'')
             [(''Lion'', [''Leo'', ''Nala''])] = Some (''Lion'', [''Leo'', ''Nala''])"
    using tolower_lion by simp
  have "[''Leo'', ''Nala''] ! (g 0 mod length [''Leo'', ''Nala'']) \<in> set [''Leo'', ''Nala'']"
    by (rule nth_mem) simp
  then have "fst (assignName ''lion'' [(''Lion'', [''Leo'', ''Nala''])] g) \<in> {''Leo'', ''Nala''}"
    using assignName_scan [OF n f, of g] by simp
  then show ?thesis
    by (auto simp: assignName_scan)
qed

theorem assignName_case_insensitive_witness:
  "fst (assignName ''lion'' [(''Lion'', [''Leo'', ''Nala''])] (constant_rng 3)) = ''Nala'' \<and>
   map_find ''lion'' [(''Leo'', [''Simba'']), (''Lion'', [''Leo'', ''Nala''])] = None \<and>
   find (\<lambda>pair. map tolower (fst pair) = map tolower ''lion'')
     [(''Leo'', [''Simba'']), (''Lion'', [''Leo'', ''Nala''])] = Some (''Lion'', [''Leo'', ''Nala'']) \<and>
   fst (assignName ''lion'' [(''Leo'', [''Simba'']), (''Lion'', [''Leo'', ''Nala''])] (constant_rng 4)) =
     ''Leo''"
proof -
  have n: "map_find ''lion'' [(''Leo'', [''Simba'']), (''Lion'', [''Leo'', ''Nala''])] = None"
    by (simp add: map_find_def)
  have l: "map tolower ''Leo'' \<noteq> ''lion''"
    by code_simp
  have f: "find (\<lambda>pair. map tolower (fst pair) = map tolower ''lion'')
             [(''Leo'', [''Simba'']), (''Lion'', [''Leo'', ''Nala''])] =
           Some (''Lion'', [''Leo'', ''Nala''])"
    using tolower_lion l by simp
  have m3: "(3::nat) mod Suc (Suc 0) = Suc 0" and m4: "(4::nat) mod Suc (Suc 0) = 0"
    by presburger+
  have one: "fst (assignName ''lion'' [(''Lion'', [''Leo'', ''Nala''])] (constant_rng 3)) = ''Nala''"
    using tolower_lion m3 by (simp add: assignName_def map_find_def rand_def constant_rng_def)
  show ?thesis
    using n f one
      assignName_case_insensitive [of "constant_rng 3" "''lion''"
        "[(''Leo'', [''Simba'']), (''Lion'', [''Leo'', ''Nala''])]"
        "(''Lion'', [''Leo'', ''Nala''])" "constant_rng 4"]
    by (simp add: constant_rng_def m4)
qed

section \<open>The arrival record loader\<close>

lemma arrival_list_all_parse:
  assumes "\<forall>line \<in> set (filter (\<lambda>l. l \<noteq> []) (map trim ls)).
             6 \<le> length (split_parts [] line) \<longrightarrow>
             (\<exists>a. make_animal stod (split_parts [] line) = Inr a)"
  shows "\<exists>as. arrival_list stod animals err ls =
           (Inr (animals @ as),
            err @ concat (map invalid_record
                    (filter (\<lambda>l. length (split_parts [] l) < 6)
                       (filter (\<lambda>l. l \<noteq> []) (map trim ls))))) \<and>
           map Inr as =
             map (\<lambda>l. make_animal stod (split_parts [] l))
               (filter (\<lambda>l. 6 \<le> length (split_parts [] l))
                  (filter (\<lambda>l. l \<noteq> []) (map trim ls)))"
  using assms
proof (induction ls arbitrary: animals err)
  case Nil
  then show ?case by simp
next
  case (Cons line0 ls)
  have rest: "\<forall>line \<in> set (filter (\<lambda>l. l \<noteq> []) (map trim ls)).
             6 \<le> length (split_parts [] line) \<longrightarrow>
             (\<exists>a. make_animal stod (split_parts [] line) = Inr a)"
    using Cons.prems by simp
  show ?case
  proof (cases "trim line0 = []")
    case True
    then show ?thesis
      using Cons.IH [OF rest, of animals err] by simp
  next
    case blank: False
    show ?thesis
    proof (cases "length (split_parts [] (trim line0)) < 6")
      case True
      then show ?thesis
        using blank Cons.IH [OF rest, of animals "err @ invalid_record (trim line0)"]
        by (simp add: Let_def)
    next
      case False
      then obtain a where a: "make_animal stod (split_parts [] (trim line0)) = Inr a"
        using blank Cons.prems by auto
      obtain as where as: "arrival_list stod (animals @ [a]) err ls =
           (Inr ((animals @ [a]) @ as),
            err @ concat (map invalid_record
                    (filter (\<lambda>l. length (split_parts [] l) < 6)
                       (filter (\<lambda>l. l \<noteq> []) (map trim ls)))))"
         and m: "map Inr as =
             map (\<lambda>l. make_animal stod (split_parts [] l))
               (filter (\<lambda>l. 6 \<le> length (split_parts [] l))
                  (filter (\<lambda>l. l \<noteq> []) (map trim ls)))"
        using Cons.IH [OF rest, of "animals @ [a]" err] by blast
      have "arrival_list stod animals err (line0 # ls) =
           (Inr (animals @ (a # as)),
            err @ concat (map invalid_record
                    (filter (\<lambda>l. length (split_parts [] l) < 6)
                       (filter (\<lambda>l. l \<noteq> []) (map trim (line0 # ls))))))"
        using blank False a as by (simp add: Let_def)
      moreover have "map Inr (a # as) =
             map (\<lambda>l. make_animal stod (split_parts [] l))
               (filter (\<lambda>l. 6 \<le> length (split_parts [] l))
                  (filter (\<lambda>l. l \<noteq> []) (map trim (line0 # ls))))"
        using blank False a m by simp
      ultimately show ?thesis by blast
    qed
  qed
qed

text \<open>
  C5, as stated, fails: in the file whose first line has six fields and the age token
  \<open>x\<close>, and whose second line has four fields, \<open>stoi\<close> throws on the first line, the
  exception leaves the loader, and the second line is never read. No list is returned,
  and the line of four fields gets no diagnostic.
\<close>

theorem loadArrivingAnimals_counterexample:
  "record_lines (''x Hyena, a, b, 1, c, d'' @ [newline] @ ''only, four, fields, here'' @ [newline]) =
     [''x Hyena, a, b, 1, c, d'', ''only, four, fields, here''] \<and>
   length (split_parts [] ''only, four, fields, here'') = 4 \<and>
   loadArrivingAnimals stod_decimal
     (disk_of [(''arrivingAnimals.txt'',
        ''x Hyena, a, b, 1, c, d'' @ [newline] @ ''only, four, fields, here'' @ [newline])])
     ''arrivingAnimals.txt'' = (Inl InvalidArgument, [])"
  by code_simp

text \<open>
  C5, amended. For every arrivals file that opens and in which each non-blank line with at
  least 6 fields has an age and a weight that parse, the loader returns a list, and:
  each non-blank trimmed line with fewer than 6 fields is left out of the list and produces
  exactly one diagnostic line that names it; each non-blank line with at least 6 fields
  contributes exactly one record, the one made from its fields; the records, and the
  diagnostics, appear in file order.
\<close>

theorem loadArrivingAnimals_records:
  assumes "open_read fs filename = Some inp"
    and "\<forall>line \<in> set (record_lines inp).
           6 \<le> length (split_parts [] line) \<longrightarrow>
           (\<exists>a. make_animal stod (split_parts [] line) = Inr a)"
  shows "\<exists>animals.
           loadArrivingAnimals stod fs filename =
             (Inr animals,
              concat (map invalid_record
                (filter (\<lambda>l. length (split_parts [] l) < 6) (record_lines inp)))) \<and>
           map Inr animals =
             map (\<lambda>l. make_animal stod (split_parts [] l))
               (filter (\<lambda>l. 6 \<le> length (split_parts [] l)) (record_lines inp))"
proof -
  have "loadArrivingAnimals stod fs filename = arrival_list stod [] [] (getlines newline inp)"
    using assms(1) by (simp add: loadArrivingAnimals_def arrival_lines_list)
  then show ?thesis
    using arrival_list_all_parse [of "getlines newline inp" stod "[]" "[]"] assms(2)
    by (simp add: record_lines_def)
qed

theorem loadArrivingAnimals_records_witness:
  "open_read (disk_of [(''arrivingAnimals.txt'', arrivals_example)]) ''arrivingAnimals.txt'' =
     Some arrivals_example \<and>
   record_lines arrivals_example =
     [''4 Hyena, born in spring, brown, 45.5, savanna, east'', ''only, four, fields, here'',
      ''12 Lion, born in fall, tan, 190, zoo, north''] \<and>
   loadArrivingAnimals stod_decimal (disk_of [(''arrivingAnimals.txt'', arrivals_example)])
       ''arrivingAnimals.txt'' =
     (Inr [\<lparr>age = 4, species = ''Hyena'', birthSeason = ''born in spring'', color = ''brown'',
            weight = (455, 1), origin = ''savanna east'', name = []\<rparr>,
           \<lparr>age = 12, species = ''Lion'', birthSeason = ''born in fall'', color = ''tan'',
            weight = (190, 0), origin = ''zoo north'', name = []\<rparr>],
      invalid_record ''only, four, fields, here'')"
proof -
  let ?fs = "disk_of [(''arrivingAnimals.txt'', arrivals_example)]"
  have o: "open_read ?fs ''arrivingAnimals.txt'' = Some arrivals_example"
    by (simp add: open_read_def disk_of_def)
  have r: "record_lines arrivals_example =
     [''4 Hyena, born in spring, brown, 45.5, savanna, east'', ''only, four, fields, here'',
      ''12 Lion, born in fall, tan, 190, zoo, north'']"
    by code_simp
  have n1: "length (split_parts [] ''4 Hyena, born in spring, brown, 45.5, savanna, east'') = 6"
    and n2: "length (split_parts [] ''only, four, fields, here'') = 4"
    and n3: "length (split_parts [] ''12 Lion, born in fall, tan, 190, zoo, north'') = 6"
    by code_simp+
  have a1: "make_animal stod_decimal
              (split_parts [] ''4 Hyena, born in spring, brown, 45.5, savanna, east'') =
            Inr \<lparr>age = 4, species = ''Hyena'', birthSeason = ''born in spring'', color = ''brown'',
                 weight = (455, 1), origin = ''savanna east'', name = []\<rparr>"
    by code_simp
  have a3: "make_animal stod_decimal
              (split_parts [] ''12 Lion, born in fall, tan, 190, zoo, north'') =
            Inr \<lparr>age = 12, species = ''Lion'', birthSeason = ''born in fall'', color = ''tan'',
                 weight = (190, 0), origin = ''zoo north'', name = []\<rparr>"
    by code_simp
  have h: "\<forall>line \<in> set (record_lines arrivals_example).
           6 \<le> length (split_parts [] line) \<longrightarrow>
           (\<exists>a. make_animal stod_decimal (split_parts [] line) = Inr a)"
    by (simp add: r n1 n2 n3 a1 a3)
  show ?thesis
    using loadArrivingAnimals_records [OF o h] o r
    by (auto simp: n1 n2 n3 a1 a3)
qed

section \<open>The name catalog loader\<close>

lemma getline_line: "d \<notin> set l \<Longrightarrow> getline d (l @ d # rest) = Some (l, rest)"
proof -
  assume "d \<notin> set l"
  then have "takeWhile (\<lambda>c. c \<noteq> d) (l @ d # rest) = l \<and>
             dropWhile (\<lambda>c. c \<noteq> d) (l @ d # rest) = d # rest"
    by (induction l) auto
  then show ?thesis by (simp add: getline_def)
qed

lemma getlines_line: "d \<notin> set l \<Longrightarrow> getlines d (l @ d # rest) = l # getlines d rest"
  by (simp add: getlines_Some getline_line)

lemma names_lines_line:
  "newline \<notin> set l \<Longrightarrow> names_lines st (l @ newline # rest) = names_lines (names_line st l) rest"
  by (simp add: names_lines_fold getlines_line)

lemma map_find_map_at_other: "k' \<noteq> k \<Longrightarrow> map_find k' (map_at k f m) = map_find k' m"
  by (induction m) (auto simp: map_find_def)

lemma map_find_map_at_empty: "map_find [] (map_at [] (\<lambda>_. []) m) = Some ([], [])"
proof (cases m)
  case Nil
  then show ?thesis by (simp add: map_find_def)
next
  case (Cons p m')
  obtain k v where "p = (k, v)" by (cases p)
  with Cons show ?thesis by (cases k) (simp_all add: map_find_def)
qed

lemma empty_key_names_field: "empty_key_empty m \<Longrightarrow> empty_key_empty (names_field cur m x)"
  by (auto simp: names_field_def Let_def empty_key_empty_def map_find_map_at_other)

lemma empty_key_names_fields:
  "empty_key_empty m \<Longrightarrow> empty_key_empty (foldl (names_field cur) m xs)"
  by (induction xs arbitrary: m) (simp_all add: empty_key_names_field)

lemma empty_key_names_line: "empty_key_empty (fst st) \<Longrightarrow> empty_key_empty (fst (names_line st l))"
proof -
  assume a: "empty_key_empty (fst st)"
  have h: "empty_key_empty (map_at k (\<lambda>_. []) (fst st))" for k
  proof (cases "k = []")
    case True
    then show ?thesis by (simp add: empty_key_empty_def map_find_map_at_empty)
  next
    case False
    then have "map_find [] (map_at k (\<lambda>_. []) (fst st)) = map_find [] (fst st)"
      by (simp add: map_find_map_at_other)
    with a show ?thesis by (simp add: empty_key_empty_def)
  qed
  show ?thesis
    using a h by (simp add: names_line_def Let_def empty_key_names_fields)
qed

lemma empty_key_names_lines:
  "empty_key_empty (fst st) \<Longrightarrow> empty_key_empty (fst (foldl names_line st ls))"
  by (induction ls arbitrary: st) (simp_all add: empty_key_names_line)

lemma empty_key_loadAnimalNames: "empty_key_empty (fst (loadAnimalNames fs filename))"
proof -
  have "empty_key_empty (fst (([], []) :: names_map \<times> string))"
    by (simp add: empty_key_empty_def map_find_def)
  then have "empty_key_empty (fst (foldl names_line ([], []) ls))" for ls
    by (rule empty_key_names_lines)
  then have "empty_key_empty (fst (names_lines ([], []) inp))" for inp
    by (simp add: names_lines_fold)
  moreover have "empty_key_empty []"
    by (simp add: empty_key_empty_def map_find_def)
  ultimately show ?thesis
    by (simp add: loadAnimalNames_def split: option.splits)
qed

lemma names_line_empty_header:
  assumes "trim l = ''Names:'' \<or> trim l = ''names:''"
  shows "names_line (m, cur) l = (map_at [] (\<lambda>_. []) m, [])"
proof -
  have t: "trim [] = []"
    by (simp add: trim_def find_first_not_of_def)
  from assms show ?thesis
    by (auto simp: names_line_def is_header_def substr_def t)
qed

lemma names_line_no_species:
  assumes "\<not> is_header (trim l)"
  shows "names_line (m, []) l = (m, [])"
proof -
  have "foldl (names_field []) m xs = m" for xs
    by (induction xs) (simp_all add: names_field_def)
  with assms show ?thesis
    by (simp add: names_line_def Let_def)
qed

lemma names_lines_no_species:
  assumes "\<forall>l \<in> set ls. newline \<notin> set l \<and> \<not> is_header (trim l)"
  shows "names_lines (m, []) (concat (map (\<lambda>l. l @ [newline]) ls) @ rest) =
           names_lines (m, []) rest"
  using assms
proof (induction ls)
  case Nil
  then show ?case by simp
next
  case (Cons l ls)
  then have "names_lines (m, []) (l @ newline # (concat (map (\<lambda>l. l @ [newline]) ls) @ rest)) =
             names_lines (m, []) (concat (map (\<lambda>l. l @ [newline]) ls) @ rest)"
    by (simp add: names_lines_line names_line_no_species)
  with Cons show ?case by simp
qed

text \<open>
  C9. When the trimmed header line is exactly \<open>Names:\<close> or \<open>names:\<close>, the round of the
  loop stores the empty string as a key with an empty vector and makes it the current
  species. From then on the lines that are not headers change nothing, however many
  follow: their names are discarded, because the current species is empty. So in every
  catalog the loader returns, the vector under the empty key, if that key is there, is
  empty; names are stored again only after a header with a species.
\<close>

theorem loadAnimalNames_empty_species:
  "(newline \<notin> set line0 \<and> (trim line0 = ''Names:'' \<or> trim line0 = ''names:'') \<longrightarrow>
      names_lines (namesMap, currentSpecies) (line0 @ newline # rest) =
        names_lines (map_at [] (\<lambda>_. []) namesMap, []) rest \<and>
      map_find [] (map_at [] (\<lambda>_. []) namesMap) = Some ([], [])) \<and>
   ((\<forall>l \<in> set ls. newline \<notin> set l \<and> \<not> is_header (trim l)) \<longrightarrow>
      names_lines (namesMap', []) (concat (map (\<lambda>l. l @ [newline]) ls) @ rest') =
        names_lines (namesMap', []) rest') \<and>
   empty_key_empty (fst (loadAnimalNames fs filename))"
  by (simp add: names_lines_line names_line_empty_header names_lines_no_species
      map_find_map_at_empty empty_key_loadAnimalNames)

theorem loadAnimalNames_empty_species_witness:
  "newline \<notin> set ''Names:'' \<and> trim ''Names:'' = ''Names:'' \<and>
   names_lines ([(''Lion'', [''Leo''])], ''Lion'')
       (''Names:'' @ newline # ''Rex, Max'' @ [newline] @ ''Bo'' @ [newline]) =
     names_lines (map_at [] (\<lambda>_. []) [(''Lion'', [''Leo''])], [])
       (''Rex, Max'' @ [newline] @ ''Bo'' @ [newline]) \<and>
   map_at [] (\<lambda>_. []) [(''Lion'', [''Leo''])] = [([], []), (''Lion'', [''Leo''])] \<and>
   newline \<notin> set ''Rex, Max'' \<and> \<not> is_header (trim ''Rex, Max'') \<and>
   newline \<notin> set ''Bo'' \<and> \<not> is_header (trim ''Bo'') \<and>
   names_lines ([([], []), (''Lion'', [''Leo''])], [])
       (concat (map (\<lambda>l. l @ [newline]) [''Rex, Max'', ''Bo'']) @ []) =
     ([([], []), (''Lion'', [''Leo''])], []) \<and>
   loadAnimalNames (disk_of [(''animalNames.txt'', names_example)]) ''animalNames.txt'' =
     ([([], []), (''Lion'', [''Leo''])], []) \<and>
   empty_key_empty (fst (loadAnimalNames (disk_of [(''animalNames.txt'', names_example)])
     ''animalNames.txt''))"
proof -
  have h1: "newline \<notin> set ''Names:''" and h2: "trim ''Names:'' = ''Names:''"
    and h3: "newline \<notin> set ''Rex, Max''" and h4: "\<not> is_header (trim ''Rex, Max'')"
    and h5: "newline \<notin> set ''Bo''" and h6: "\<not> is_header (trim ''Bo'')"
    and h7: "map_at [] (\<lambda>_. []) [(''Lion'', [''Leo''])] = [([], []), (''Lion'', [''Leo''])]"
    by code_simp+
  have e: "names_lines ([([], []), (''Lion'', [''Leo''])], []) [] = ([([], []), (''Lion'', [''Leo''])], [])"
    by (subst names_lines.simps) simp
  have l: "loadAnimalNames (disk_of [(''animalNames.txt'', names_example)]) ''animalNames.txt'' =
     ([([], []), (''Lion'', [''Leo''])], [])"
    by code_simp
  show ?thesis
    using h1 h2 h3 h4 h5 h6 h7 e l
      loadAnimalNames_empty_species [of "''Names:''" "[(''Lion'', [''Leo''])]" "''Lion''"
        "''Rex, Max'' @ [newline] @ ''Bo'' @ [newline]" "[''Rex, Max'', ''Bo'']"
        "[([], []), (''Lion'', [''Leo''])]" "[]"
        "disk_of [(''animalNames.txt'', names_example)]" "''animalNames.txt''"]
    by simp
qed

section \<open>What the loaders and the assigner produce\<close>

lemma map_find_Some: "map_find k m = Some e \<Longrightarrow> fst e = k \<and> e \<in> set m"
  by (auto simp: map_find_def find_Some_iff)

lemma assignName_result:
  "fst (assignName sp m g) = ''Unnamed'' \<or> (\<exists>e \<in> set m. fst (assignName sp m g) \<in> set (snd e))"
proof (cases "map_find sp m")
  case (Some e)
  then have "e \<in> set m" by (simp add: map_find_Some)
  then show ?thesis
    using Some by (auto simp: assignName_exact intro!: bexI [of _ e])
next
  case None
  show ?thesis
  proof (cases "find (\<lambda>pair. map tolower (fst pair) = map tolower sp) m")
    case n: None
    with None show ?thesis by (simp add: assignName_no_match)
  next
    case (Some e)
    then have "e \<in> set m" by (auto simp: find_Some_iff)
    then show ?thesis
      using None Some by (auto simp: assignName_scan intro!: bexI [of _ e])
  qed
qed

lemma assign_names_result:
  "a \<in> set (fst (assign_names m as g)) \<Longrightarrow>
     \<exists>a0 \<in> set as. \<exists>g'. a = a0\<lparr>name := fst (assignName (species a0) m g')\<rparr>"
proof (induction as arbitrary: g)
  case Nil
  then show ?case by simp
next
  case (Cons b as)
  obtain n g1 where n: "assignName (species b) m g = (n, g1)" by (cases "assignName (species b) m g")
  obtain as' g2 where r: "assign_names m as g1 = (as', g2)" by (cases "assign_names m as g1")
  from Cons.prems n r have "a = b\<lparr>name := n\<rparr> \<or> a \<in> set (fst (assign_names m as g1))"
    by auto
  then show ?case
  proof
    assume "a = b\<lparr>name := n\<rparr>"
    then have "a = b\<lparr>name := fst (assignName (species b) m g)\<rparr>" using n by simp
    then show ?thesis by auto
  next
    assume "a \<in> set (fst (assign_names m as g1))"
    then show ?thesis using Cons.IH by auto
  qed
qed

lemma length_assign_names: "length (fst (assign_names m as g)) = length as"
  by (induction as arbitrary: g) (auto simp: split_beta Let_def)

lemma set_trim: "set (trim s) \<subseteq> set s"
  by (auto simp: trim_def substr_def split: option.splits dest: in_set_takeD in_set_dropD)

lemma getlines_pieces_all: "\<forall>x \<in> set (getlines d s). set x \<subseteq> set s \<and> d \<notin> set x"
proof (induction s)
  case Nil
  then show ?case by simp
next
  case (Cons c s)
  show ?case
  proof (cases "c = d")
    case True
    with Cons show ?thesis by (auto simp: getlines_Cons)
  next
    case False
    show ?thesis
    proof (cases "getlines d s")
      case Nil
      with False show ?thesis by (simp add: getlines_Cons)
    next
      case (Cons l ls)
      with Cons.IH have "set l \<subseteq> set s \<and> d \<notin> set l"
        and "\<forall>x \<in> set ls. set x \<subseteq> set s \<and> d \<notin> set x"
        by simp_all
      with False Cons show ?thesis by (auto simp: getlines_Cons)
    qed
  qed
qed

lemma getlines_pieces: "x \<in> set (getlines d s) \<Longrightarrow> set x \<subseteq> set s \<and> d \<notin> set x"
  using getlines_pieces_all by blast

lemma map_at_entries:
  "e \<in> set (map_at k f m) \<Longrightarrow> e \<in> set m \<or> (\<exists>v. e = (k, f v) \<and> (v = [] \<or> (k, v) \<in> set m))"
  by (induction m) (auto split: if_splits)

lemma good_names_field:
  assumes "\<forall>e \<in> set m. \<forall>n \<in> set (snd e). n \<noteq> [] \<and> newline \<notin> set n"
    and "newline \<notin> set x"
  shows "\<forall>e \<in> set (names_field cur m x). \<forall>n \<in> set (snd e). n \<noteq> [] \<and> newline \<notin> set n"
proof (cases "trim x \<noteq> [] \<and> cur \<noteq> []")
  case False
  with assms(1) show ?thesis by (auto simp: names_field_def)
next
  case True
  have t: "newline \<notin> set (trim x)"
    using assms(2) set_trim by blast
  have "names_field cur m x = map_at cur (\<lambda>v. v @ [trim x]) m"
    using True by (simp add: names_field_def)
  moreover have "\<forall>n \<in> set (snd e). n \<noteq> [] \<and> newline \<notin> set n"
    if "e \<in> set (map_at cur (\<lambda>v. v @ [trim x]) m)" for e
    using map_at_entries [OF that] assms(1) True t by fastforce
  ultimately show ?thesis by simp
qed

lemma good_names_fields:
  assumes "\<forall>e \<in> set m. \<forall>n \<in> set (snd e). n \<noteq> [] \<and> newline \<notin> set n"
    and "\<forall>x \<in> set xs. newline \<notin> set x"
  shows "\<forall>e \<in> set (foldl (names_field cur) m xs). \<forall>n \<in> set (snd e). n \<noteq> [] \<and> newline \<notin> set n"
  using assms
proof (induction xs arbitrary: m)
  case Nil
  then show ?case by simp
next
  case (Cons x xs)
  have "\<forall>e \<in> set (names_field cur m x). \<forall>n \<in> set (snd e). n \<noteq> [] \<and> newline \<notin> set n"
    using Cons.prems by (intro good_names_field) simp_all
  then show ?case
    using Cons.IH [of "names_field cur m x"] Cons.prems(2) by simp
qed

lemma good_names_line:
  assumes "\<forall>e \<in> set (fst st). \<forall>n \<in> set (snd e). n \<noteq> [] \<and> newline \<notin> set n"
    and "newline \<notin> set l"
  shows "\<forall>e \<in> set (fst (names_line st l)). \<forall>n \<in> set (snd e). n \<noteq> [] \<and> newline \<notin> set n"
proof -
  have h: "\<forall>n \<in> set (snd e). n \<noteq> [] \<and> newline \<notin> set n"
    if "e \<in> set (map_at k (\<lambda>_. []) (fst st))" for e k
    using map_at_entries [OF that] assms(1) by fastforce
  have t: "newline \<notin> set (trim l)"
    using assms(2) set_trim by blast
  have "\<forall>x \<in> set (getlines CHR '','' (trim l)). newline \<notin> set x"
    using t getlines_pieces by blast
  then have f: "\<forall>e \<in> set (foldl (names_field (snd st)) (fst st) (getlines CHR '','' (trim l))).
          \<forall>n \<in> set (snd e). n \<noteq> [] \<and> newline \<notin> set n"
    using assms(1) by (intro good_names_fields) simp_all
  show ?thesis
    using assms(1) h f by (simp add: names_line_def Let_def)
qed

lemma good_names_lines:
  assumes "\<forall>e \<in> set (fst st). \<forall>n \<in> set (snd e). n \<noteq> [] \<and> newline \<notin> set n"
    and "\<forall>l \<in> set ls. newline \<notin> set l"
  shows "\<forall>e \<in> set (fst (foldl names_line st ls)). \<forall>n \<in> set (snd e). n \<noteq> [] \<and> newline \<notin> set n"
  using assms
proof (induction ls arbitrary: st)
  case Nil
  then show ?case by simp
next
  case (Cons l ls)
  have "\<forall>e \<in> set (fst (names_line st l)). \<forall>n \<in> set (snd e). n \<noteq> [] \<and> newline \<notin> set n"
    using Cons.prems by (intro good_names_line) simp_all
  then show ?case
    using Cons.IH [of "names_line st l"] Cons.prems(2) by simp
qed

lemma loadAnimalNames_candidates:
  assumes "e \<in> set (fst (loadAnimalNames fs filename))" and "n \<in> set (snd e)"
  shows "n \<noteq> [] \<and> newline \<notin> set n"
proof (cases "open_read fs filename")
  case None
  with assms show ?thesis by (simp add: loadAnimalNames_def)
next
  case (Some inp)
  have "\<forall>l \<in> set (getlines newline inp). newline \<notin> set l"
    using getlines_pieces by blast
  then have "\<forall>e \<in> set (fst (foldl names_line ([], []) (getlines newline inp))).
               \<forall>n \<in> set (snd e). n \<noteq> [] \<and> newline \<notin> set n"
    by (intro good_names_lines) simp_all
  with assms Some show ?thesis
    by (simp add: loadAnimalNames_def names_lines_fold)
qed

lemma main_terminate:
  assumes "fst (loadArrivingAnimals stod fs ''arrivingAnimals.txt'') = Inl e"
  shows "main stod sd fs g =
           \<lparr>status = Terminate e, written = [], cout = [],
            cerr = snd (loadAnimalNames fs ''animalNames.txt'') @
                   snd (loadArrivingAnimals stod fs ''arrivingAnimals.txt''),
            disk = fs\<rparr>"
  using assms by (simp add: main_def split_beta)

lemma main_written:
  assumes "fst (loadArrivingAnimals stod fs ''arrivingAnimals.txt'') = Inr arrivingAnimals"
  shows "written (main stod sd fs g) =
           fst (assign_names (fst (loadAnimalNames fs ''animalNames.txt'')) arrivingAnimals g)"
  using assms by (simp add: main_def split_beta Let_def split: option.splits)

lemma main_disk:
  assumes "fst (loadArrivingAnimals stod fs ''arrivingAnimals.txt'') = Inr arrivingAnimals"
  shows "disk (main stod sd fs g) =
           fst (updateZooPopulation sd fs ''newAnimals.txt'' (written (main stod sd fs g)))"
  using assms by (simp add: main_def split_beta Let_def split: option.splits)

lemma main_status:
  assumes "fst (loadArrivingAnimals stod fs ''arrivingAnimals.txt'') = Inr arrivingAnimals"
  shows "status (main stod sd fs g) =
           (if open_read (disk (main stod sd fs g)) ''newAnimals.txt'' = None then Exit 1 else Exit 0)"
  using assms by (simp add: main_def split_beta Let_def split: option.splits)

section \<open>The run of the program\<close>

lemma main_report:
  "report (disk (main stod sd fs g)) =
     report fs @
     (if appendable fs ''newAnimals.txt''
      then concat (map (animal_line sd) (written (main stod sd fs g))) else [])"
proof (cases "fst (loadArrivingAnimals stod fs ''arrivingAnimals.txt'')")
  case (Inl e)
  then show ?thesis by (simp add: main_terminate)
next
  case (Inr arr)
  then have "disk (main stod sd fs g) =
      fst (updateZooPopulation sd fs ''newAnimals.txt'' (written (main stod sd fs g)))"
    by (rule main_disk)
  then show ?thesis
    by (simp add: updateZooPopulation_def report_def)
qed

text \<open>
  C8. In every run, each record of the vector handed to \<open>updateZooPopulation\<close> carries a
  name that \<open>assignName\<close> returned for its species and the loaded catalog: it is
  \<open>Unnamed\<close> or a candidate of the catalog, and it is never the empty string that the
  loader leaves in the field. What the run adds to the report is the lines of exactly
  these records (nothing, if the report does not open for appending).
\<close>

theorem main_names_assigned:
  "(\<forall>a \<in> set (written (main stod show_double fs g)).
      name a \<noteq> [] \<and>
      (\<exists>g'. name a = fst (assignName (species a) (fst (loadAnimalNames fs ''animalNames.txt'')) g')) \<and>
      (name a = ''Unnamed'' \<or>
       (\<exists>e \<in> set (fst (loadAnimalNames fs ''animalNames.txt'')). name a \<in> set (snd e)))) \<and>
   report (disk (main stod show_double fs g)) =
     report fs @
     (if appendable fs ''newAnimals.txt''
      then concat (map (animal_line show_double) (written (main stod show_double fs g)))
      else [])"
proof
  show "\<forall>a \<in> set (written (main stod show_double fs g)).
      name a \<noteq> [] \<and>
      (\<exists>g'. name a = fst (assignName (species a) (fst (loadAnimalNames fs ''animalNames.txt'')) g')) \<and>
      (name a = ''Unnamed'' \<or>
       (\<exists>e \<in> set (fst (loadAnimalNames fs ''animalNames.txt'')). name a \<in> set (snd e)))"
  proof
    fix a
    assume a: "a \<in> set (written (main stod show_double fs g))"
    let ?m = "fst (loadAnimalNames fs ''animalNames.txt'')"
    show "name a \<noteq> [] \<and> (\<exists>g'. name a = fst (assignName (species a) ?m g')) \<and>
       (name a = ''Unnamed'' \<or> (\<exists>e \<in> set ?m. name a \<in> set (snd e)))"
    proof (cases "fst (loadArrivingAnimals stod fs ''arrivingAnimals.txt'')")
      case (Inl e)
      with a show ?thesis by (simp add: main_terminate)
    next
      case (Inr arr)
      with a have "a \<in> set (fst (assign_names ?m arr g))"
        by (simp add: main_written)
      then obtain a0 g' where "a = a0\<lparr>name := fst (assignName (species a0) ?m g')\<rparr>"
        using assign_names_result by blast
      then have n: "name a = fst (assignName (species a) ?m g')" by simp
      have r: "name a = ''Unnamed'' \<or> (\<exists>e \<in> set ?m. name a \<in> set (snd e))"
        using assignName_result [of "species a" ?m g'] n by simp
      then have "name a \<noteq> []"
        using loadAnimalNames_candidates by fastforce
      with n r show ?thesis by blast
    qed
  qed
  show "report (disk (main stod show_double fs g)) =
     report fs @
     (if appendable fs ''newAnimals.txt''
      then concat (map (animal_line show_double) (written (main stod show_double fs g)))
      else [])"
    by (rule main_report)
qed

theorem main_names_assigned_witness:
  "written (main stod_decimal show_decimal zoo_example (constant_rng 1)) =
     [\<lparr>age = 4, species = ''Hyena'', birthSeason = ''born in spring'', color = ''brown'',
       weight = (455, 1), origin = ''savanna east'', name = ''Scar''\<rparr>] \<and>
   (\<exists>g'. ''Scar'' =
      fst (assignName ''Hyena'' (fst (loadAnimalNames zoo_example ''animalNames.txt'')) g')) \<and>
   (\<exists>e \<in> set (fst (loadAnimalNames zoo_example ''animalNames.txt'')). ''Scar'' \<in> set (snd e)) \<and>
   report (disk (main stod_decimal show_decimal zoo_example (constant_rng 1))) =
     ''Scar, Hyena, 4, born in spring, brown, 45.5, savanna east'' @ [newline]"
proof -
  have al: "animal_line show_decimal
      \<lparr>age = 4, species = ''Hyena'', birthSeason = ''born in spring'', color = ''brown'',
       weight = (455, 1), origin = ''savanna east'', name = ''Scar''\<rparr> =
      ''Scar, Hyena, 4, born in spring, brown, 45.5, savanna east'' @ [newline]"
    and r0: "report zoo_example = []"
    and ap: "appendable zoo_example ''newAnimals.txt''"
    by code_simp+
  have w: "written (main stod_decimal show_decimal zoo_example (constant_rng 1)) =
     [\<lparr>age = 4, species = ''Hyena'', birthSeason = ''born in spring'', color = ''brown'',
       weight = (455, 1), origin = ''savanna east'', name = ''Scar''\<rparr>]"
    by code_simp
  show ?thesis
    using w al r0 ap
      main_names_assigned [of stod_decimal show_decimal zoo_example "constant_rng 1"]
    by simp
qed

lemma loadArrivingAnimals_missing:
  "open_read fs filename = None \<Longrightarrow>
     loadArrivingAnimals stod fs filename = (Inr [], ''Error opening file: '' @ filename @ [newline])"
  by (simp add: loadArrivingAnimals_def)

lemma loadAnimalNames_missing:
  "open_read fs filename = None \<Longrightarrow>
     loadAnimalNames fs filename = ([], ''Error opening file: '' @ filename @ [newline])"
  by (simp add: loadAnimalNames_def)

text \<open>
  C7, as stated, fails: take no names file, an arrivals file whose only line has six
  fields and the age token \<open>x\<close>, and a report file that can be read. An input file is
  missing, yet the run does not exit with status 0: \<open>stoi\<close> throws, nothing catches the
  exception, and the process is aborted, which reports an unsuccessful termination to
  the host although the report file can be reopened.
\<close>

theorem main_exit_status_counterexample:
  "open_read abort_example ''animalNames.txt'' = None \<and>
   status (main stod_decimal show_decimal abort_example (constant_rng 0)) =
     Terminate InvalidArgument \<and>
   open_read (disk (main stod_decimal show_decimal abort_example (constant_rng 0)))
     ''newAnimals.txt'' =
     Some (''Rex, Lion, 3, born in fall, tan, 190, zoo north'' @ [newline])"
  by code_simp

text \<open>
  C7, amended. Every run that returns from \<open>main\<close> exits with status 0 when the report
  file reopens for the display step and with status 1 when it does not, also when
  either input file does not open: that failure is logged and the file counts as an empty
  source, and with no arrivals file the run always returns. The only runs that do not
  return are those in which a conversion exception leaves the arrivals loader (an age or
  a weight that does not parse, on a line of at least 6 fields): the exception is caught
  nowhere and aborts the process.
\<close>

theorem main_exit_status:
  "(status (main stod show_double fs g) = Exit n \<longrightarrow>
      n = (if open_read (disk (main stod show_double fs g)) ''newAnimals.txt'' = None
           then 1 else 0)) \<and>
   (status (main stod show_double fs g) = Terminate e \<longleftrightarrow>
      fst (loadArrivingAnimals stod fs ''arrivingAnimals.txt'') = Inl e) \<and>
   (open_read fs ''animalNames.txt'' = None \<longrightarrow>
      loadAnimalNames fs ''animalNames.txt'' =
        ([], ''Error opening file: animalNames.txt'' @ [newline])) \<and>
   (open_read fs ''arrivingAnimals.txt'' = None \<longrightarrow>
      loadArrivingAnimals stod fs ''arrivingAnimals.txt'' =
        (Inr [], ''Error opening file: arrivingAnimals.txt'' @ [newline]) \<and>
      (\<exists>k. status (main stod show_double fs g) = Exit k))"
proof (cases "fst (loadArrivingAnimals stod fs ''arrivingAnimals.txt'')")
  case (Inl e')
  then have "status (main stod show_double fs g) = Terminate e'"
    by (simp add: main_terminate)
  moreover have "open_read fs ''arrivingAnimals.txt'' \<noteq> None"
    using Inl
    by (cases "open_read fs ''arrivingAnimals.txt''") (simp_all add: loadArrivingAnimals_missing)
  ultimately show ?thesis
    using Inl by (auto simp: loadAnimalNames_missing)
next
  case (Inr animals)
  then have "status (main stod show_double fs g) =
      (if open_read (disk (main stod show_double fs g)) ''newAnimals.txt'' = None
       then Exit 1 else Exit 0)"
    by (rule main_status)
  with Inr show ?thesis
    by (auto simp: loadAnimalNames_missing loadArrivingAnimals_missing)
qed

theorem main_exit_status_witness:
  "status (main stod_decimal show_decimal (disk_of []) (constant_rng 0)) = Exit 0 \<and>
   open_read (disk (main stod_decimal show_decimal (disk_of []) (constant_rng 0)))
     ''newAnimals.txt'' = Some [] \<and>
   open_read (disk_of []) ''animalNames.txt'' = None \<and>
   loadAnimalNames (disk_of []) ''animalNames.txt'' =
     ([], ''Error opening file: animalNames.txt'' @ [newline]) \<and>
   open_read (disk_of []) ''arrivingAnimals.txt'' = None \<and>
   loadArrivingAnimals stod_decimal (disk_of []) ''arrivingAnimals.txt'' =
     (Inr [], ''Error opening file: arrivingAnimals.txt'' @ [newline]) \<and>
   status (main stod_decimal show_decimal (unreadable zoo_example) (constant_rng 0)) = Exit 1 \<and>
   open_read (disk (main stod_decimal show_decimal (unreadable zoo_example) (constant_rng 0)))
     ''newAnimals.txt'' = None"
proof -
  have s0: "status (main stod_decimal show_decimal (disk_of []) (constant_rng 0)) = Exit 0"
    and o0: "open_read (disk (main stod_decimal show_decimal (disk_of []) (constant_rng 0)))
     ''newAnimals.txt'' = Some []"
    and n: "open_read (disk_of []) ''animalNames.txt'' = None"
    and a: "open_read (disk_of []) ''arrivingAnimals.txt'' = None"
    and s1: "status (main stod_decimal show_decimal (unreadable zoo_example) (constant_rng 0)) = Exit 1"
    by code_simp+
  show ?thesis
    using s0 o0 n a s1
      main_exit_status [of stod_decimal show_decimal "disk_of []" "constant_rng 0" 0 InvalidArgument]
      main_exit_status [of stod_decimal show_decimal "unreadable zoo_example" "constant_rng 0" 1
        InvalidArgument]
    by (simp split: if_splits)
qed

section \<open>The report writer\<close>

lemma animal_line_text: "animal_line sd a = record_text sd a @ [newline]"
  by (simp add: animal_line_def record_text_def)

lemma getlines_nonempty: "s \<noteq> [] \<Longrightarrow> getlines d s \<noteq> []"
  by (cases s) (auto simp: getlines_Cons split: list.splits)

lemma getlines_append:
  "pre \<noteq> [] \<Longrightarrow> last pre = d \<Longrightarrow> getlines d (pre @ s) = getlines d pre @ getlines d s"
proof (induction pre)
  case Nil
  then show ?case by simp
next
  case (Cons c pre)
  show ?case
  proof (cases "pre = []")
    case True
    with Cons.prems show ?thesis by (simp add: getlines_Cons)
  next
    case False
    then have IH: "getlines d (pre @ s) = getlines d pre @ getlines d s"
      using Cons by simp
    obtain l ls where l: "getlines d pre = l # ls"
      using getlines_nonempty [OF False, of d] by (cases "getlines d pre") auto
    show ?thesis
      using IH l by (simp add: getlines_Cons)
  qed
qed

lemma getlines_concat_lines:
  "\<forall>l \<in> set ls. d \<notin> set l \<Longrightarrow> getlines d (concat (map (\<lambda>l. l @ [d]) ls)) = ls"
  by (induction ls) (simp_all add: getlines_line)

lemma getlines_appended:
  assumes "old = [] \<or> last old = d" and "\<forall>l \<in> set ls. d \<notin> set l"
  shows "getlines d (old @ concat (map (\<lambda>l. l @ [d]) ls)) = getlines d old @ ls"
proof (cases "old = []")
  case True
  with assms(2) show ?thesis by (simp add: getlines_concat_lines)
next
  case False
  with assms show ?thesis by (simp add: getlines_append getlines_concat_lines)
qed

lemma lines_appended:
  assumes "old = [] \<or> last old = newline" and "\<forall>a \<in> set animals. one_line sd a"
  shows "getlines newline (old @ concat (map (animal_line sd) animals)) =
           getlines newline old @ map (record_text sd) animals"
proof -
  have "concat (map (animal_line sd) animals) =
          concat (map (\<lambda>l. l @ [newline]) (map (record_text sd) animals))"
  proof -
    have "animal_line sd = (\<lambda>a. record_text sd a @ [newline])"
      by (simp add: fun_eq_iff animal_line_text)
    then show ?thesis by (simp add: comp_def)
  qed
  moreover have "\<forall>l \<in> set (map (record_text sd) animals). newline \<notin> set l"
    using assms(2) by (auto simp: one_line_def)
  ultimately show ?thesis
    using getlines_appended [OF assms(1), of "map (record_text sd) animals"] by simp
qed

lemma digit_char_not_newline: "d < 10 \<Longrightarrow> digit_char d \<noteq> newline"
proof -
  assume "d < 10"
  then have "d \<in> {0, 1, 2, 3, 4, 5, 6, 7, 8, 9}" by auto
  moreover have "\<forall>d \<in> {0, 1, 2, 3, 4, 5, 6, 7, 8, 9}. digit_char d \<noteq> newline"
    by code_simp
  ultimately show ?thesis by blast
qed

lemma show_nat_no_newline: "newline \<notin> set (show_nat n)"
proof (induction n rule: show_nat.induct)
  case (1 n)
  show ?case
  proof (cases "n < 10")
    case True
    then show ?thesis
      using digit_char_not_newline [of n] by (subst show_nat.simps) auto
  next
    case False
    then have "newline \<notin> set (show_nat (n div 10))" by (rule 1)
    moreover have "digit_char (n mod 10) \<noteq> newline"
      by (rule digit_char_not_newline) simp
    ultimately show ?thesis using False by (subst show_nat.simps) auto
  qed
qed

lemma show_int_no_newline: "newline \<notin> set (show_int i)"
proof -
  have "newline \<noteq> CHR ''-''" by (simp add: newline_def)
  then show ?thesis
    using show_nat_no_newline by (auto simp: show_int_def)
qed

lemma make_animal_fields:
  assumes "make_animal stod parts = Inr a" and "6 \<le> length parts"
    and "\<forall>p \<in> set parts. newline \<notin> set p"
  shows "newline \<notin> set (species a) \<and> newline \<notin> set (birthSeason a) \<and>
         newline \<notin> set (color a) \<and> newline \<notin> set (origin a)"
proof -
  have p: "newline \<notin> set (parts ! i)" if "i < 6" for i
    using that assms(2,3) by (simp add: nth_mem)
  have s: "newline \<notin> set (trim (case getline newline ps of None \<Rightarrow> [] | Some (x, _) \<Rightarrow> x))" for ps
  proof -
    have "newline \<notin> set (case getline newline ps of None \<Rightarrow> [] | Some (x, _) \<Rightarrow> x)"
      by (auto simp: getline_def dest: set_takeWhileD)
    then show ?thesis using set_trim by blast
  qed
  have sp: "newline \<noteq> CHR '' ''" by (simp add: newline_def)
  from assms(1) show ?thesis
    using p [of 1] p [of 2] p [of 4] p [of 5] s sp
    by (auto simp: make_animal_def split_beta Let_def split: sum.splits)
qed

lemma split_parts_no_newline:
  "newline \<notin> set l \<Longrightarrow> \<forall>p \<in> set (split_parts [] l). newline \<notin> set p"
proof -
  assume l: "newline \<notin> set l"
  have "newline \<notin> set (trim x)" if "x \<in> set (getlines CHR '','' l)" for x
    using that l getlines_pieces [of x "CHR '',''" l] set_trim [of x] by blast
  then show ?thesis by (auto simp: split_parts_map)
qed

lemma arrival_list_fields:
  assumes "arrival_list stod animals err ls = (Inr animals', err')"
    and "\<forall>l \<in> set ls. newline \<notin> set l"
    and "\<forall>a \<in> set animals. newline \<notin> set (species a) \<and> newline \<notin> set (birthSeason a) \<and>
           newline \<notin> set (color a) \<and> newline \<notin> set (origin a)"
  shows "\<forall>a \<in> set animals'. newline \<notin> set (species a) \<and> newline \<notin> set (birthSeason a) \<and>
           newline \<notin> set (color a) \<and> newline \<notin> set (origin a)"
  using assms
proof (induction ls arbitrary: animals err)
  case Nil
  then show ?case by simp
next
  case (Cons line0 ls)
  have t: "newline \<notin> set (trim line0)"
    using Cons.prems(2) set_trim [of line0] by auto
  have rest: "\<forall>l \<in> set ls. newline \<notin> set l"
    using Cons.prems(2) by simp
  show ?case
  proof (cases "trim line0 = []")
    case True
    with Cons.prems(1) have "arrival_list stod animals err ls = (Inr animals', err')" by simp
    then show ?thesis using Cons.IH rest Cons.prems(3) by blast
  next
    case blank: False
    show ?thesis
    proof (cases "length (split_parts [] (trim line0)) < 6")
      case True
      with blank Cons.prems(1)
      have "arrival_list stod animals (err @ invalid_record (trim line0)) ls = (Inr animals', err')"
        by (simp add: Let_def)
      then show ?thesis using Cons.IH rest Cons.prems(3) by blast
    next
      case False
      show ?thesis
      proof (cases "make_animal stod (split_parts [] (trim line0))")
        case (Inl e)
        with blank False Cons.prems(1) show ?thesis by (simp add: Let_def)
      next
        case (Inr a)
        with blank False Cons.prems(1)
        have r: "arrival_list stod (animals @ [a]) err ls = (Inr animals', err')"
          by (simp add: Let_def)
        have "newline \<notin> set (species a) \<and> newline \<notin> set (birthSeason a) \<and>
              newline \<notin> set (color a) \<and> newline \<notin> set (origin a)"
          using Inr False split_parts_no_newline [OF t] by (intro make_animal_fields) simp_all
        then have "\<forall>a \<in> set (animals @ [a]). newline \<notin> set (species a) \<and>
            newline \<notin> set (birthSeason a) \<and> newline \<notin> set (color a) \<and> newline \<notin> set (origin a)"
          using Cons.prems(3) by simp
        then show ?thesis using Cons.IH [OF r rest] by blast
      qed
    qed
  qed
qed

lemma loadArrivingAnimals_fields:
  assumes "fst (loadArrivingAnimals stod fs filename) = Inr animals" and "a \<in> set animals"
  shows "newline \<notin> set (species a) \<and> newline \<notin> set (birthSeason a) \<and>
         newline \<notin> set (color a) \<and> newline \<notin> set (origin a)"
proof (cases "open_read fs filename")
  case None
  with assms show ?thesis by (simp add: loadArrivingAnimals_def)
next
  case (Some inp)
  obtain err where "arrival_list stod [] [] (getlines newline inp) = (Inr animals, err)"
    using assms(1) Some
    by (cases "arrival_list stod [] [] (getlines newline inp)")
       (simp add: loadArrivingAnimals_def arrival_lines_list)
  moreover have "\<forall>l \<in> set (getlines newline inp). newline \<notin> set l"
    using getlines_pieces by blast
  ultimately have "\<forall>a \<in> set animals. newline \<notin> set (species a) \<and>
      newline \<notin> set (birthSeason a) \<and> newline \<notin> set (color a) \<and> newline \<notin> set (origin a)"
    by (rule arrival_list_fields) simp
  with assms(2) show ?thesis by blast
qed

lemma written_one_line:
  assumes "\<forall>w. newline \<notin> set (sd w)" and "a \<in> set (written (main stod sd fs g))"
  shows "one_line sd a"
proof (cases "fst (loadArrivingAnimals stod fs ''arrivingAnimals.txt'')")
  case (Inl e)
  with assms(2) show ?thesis by (simp add: main_terminate)
next
  case (Inr arr)
  let ?m = "fst (loadAnimalNames fs ''animalNames.txt'')"
  from assms(2) Inr have "a \<in> set (fst (assign_names ?m arr g))"
    by (simp add: main_written)
  then obtain a0 g' where a0: "a0 \<in> set arr"
    and a: "a = a0\<lparr>name := fst (assignName (species a0) ?m g')\<rparr>"
    using assign_names_result by blast
  have f: "newline \<notin> set (species a) \<and> newline \<notin> set (birthSeason a) \<and>
         newline \<notin> set (color a) \<and> newline \<notin> set (origin a)"
    using loadArrivingAnimals_fields [OF Inr a0] a by simp
  have "name a = ''Unnamed'' \<or> (\<exists>e \<in> set ?m. name a \<in> set (snd e))"
    using assignName_result [of "species a0" ?m g'] a by simp
  moreover have "newline \<notin> set ''Unnamed''" by (simp add: newline_def)
  ultimately have n: "newline \<notin> set (name a)"
    using loadAnimalNames_candidates by fastforce
  have c: "newline \<noteq> CHR '','' \<and> newline \<noteq> CHR '' ''" by (simp add: newline_def)
  show ?thesis
    using f n c assms(1) show_int_no_newline
    by (simp add: one_line_def record_text_def)
qed

lemma update_contents:
  "appendable fs filename \<Longrightarrow>
     contents (fst (updateZooPopulation sd fs filename animals)) filename =
       Some ((case contents fs filename of None \<Rightarrow> [] | Some old \<Rightarrow> old) @
             concat (map (animal_line sd) animals))"
  by (simp add: updateZooPopulation_def)

lemma update_other:
  "p \<noteq> filename \<Longrightarrow> contents (fst (updateZooPopulation sd fs filename animals)) p = contents fs p"
  by (simp add: updateZooPopulation_def)

lemma update_permissions:
  "readable (fst (updateZooPopulation sd fs filename animals)) = readable fs \<and>
   appendable (fst (updateZooPopulation sd fs filename animals)) = appendable fs"
  by (simp add: updateZooPopulation_def)

lemma update_report:
  "appendable fs ''newAnimals.txt'' \<Longrightarrow>
     report (fst (updateZooPopulation sd fs ''newAnimals.txt'' animals)) =
       report fs @ concat (map (animal_line sd) animals)"
  by (simp add: report_def update_contents)

lemma update_open_read:
  "p \<noteq> filename \<Longrightarrow> open_read (fst (updateZooPopulation sd fs filename animals)) p = open_read fs p"
  by (simp add: open_read_def update_other update_permissions split: option.splits)

lemma loaders_same_file:
  assumes "open_read fs' filename = open_read fs filename"
  shows "loadArrivingAnimals stod fs' filename = loadArrivingAnimals stod fs filename"
    and "loadAnimalNames fs' filename = loadAnimalNames fs filename"
  using assms by (simp_all add: loadArrivingAnimals_def loadAnimalNames_def)

lemma last_appended_lines:
  assumes "animals \<noteq> []"
  shows "last (pre @ concat (map (animal_line sd) animals)) = newline"
proof -
  obtain ys y where "animals = ys @ [y]"
    using assms by (cases animals rule: rev_cases) auto
  then show ?thesis by (simp add: animal_line_text)
qed

lemma main_returns:
  "(\<exists>k. status (main stod sd fs g) = Exit k) \<longleftrightarrow>
     (\<exists>animals. fst (loadArrivingAnimals stod fs ''arrivingAnimals.txt'') = Inr animals)"
proof (cases "fst (loadArrivingAnimals stod fs ''arrivingAnimals.txt'')")
  case (Inl e)
  then show ?thesis by (simp add: main_terminate)
next
  case (Inr animals)
  then show ?thesis by (simp add: main_status)
qed

lemma second_run:
  assumes a: "appendable fs ''newAnimals.txt''" and a2: "appendable fs2 ''newAnimals.txt''"
    and sd: "\<forall>w. newline \<notin> set (sd w)"
    and same: "open_read fs2 ''arrivingAnimals.txt'' = open_read fs ''arrivingAnimals.txt''"
    and left: "report fs2 = report (disk (main stod sd fs g1))"
  shows "line_count (report (disk (main stod sd fs2 g2))) =
           line_count (report (disk (main stod sd fs g1))) +
           length (written (main stod sd fs2 g2))"
proof (cases "fst (loadArrivingAnimals stod fs ''arrivingAnimals.txt'')")
  case (Inl e)
  have "loadArrivingAnimals stod fs2 ''arrivingAnimals.txt'' =
        loadArrivingAnimals stod fs ''arrivingAnimals.txt''"
    using same by (rule loaders_same_file(1))
  then have "fst (loadArrivingAnimals stod fs2 ''arrivingAnimals.txt'') = Inl e"
    using Inl by simp
  then have "disk (main stod sd fs2 g2) = fs2" and "written (main stod sd fs2 g2) = []"
    by (simp_all add: main_terminate)
  then show ?thesis
    using left by simp
next
  case arr: (Inr arr)
  let ?r1 = "main stod sd fs g1"
  let ?fs1 = "disk ?r1"
  let ?r2 = "main stod sd fs2 g2"
  have d1: "?fs1 = fst (updateZooPopulation sd fs ''newAnimals.txt'' (written ?r1))"
    using arr by (rule main_disk)
  have "loadArrivingAnimals stod fs2 ''arrivingAnimals.txt'' =
        loadArrivingAnimals stod fs ''arrivingAnimals.txt''"
    using same by (rule loaders_same_file(1))
  then have arr2: "fst (loadArrivingAnimals stod fs2 ''arrivingAnimals.txt'') = Inr arr"
    using arr by simp
  have d2: "disk ?r2 = fst (updateZooPopulation sd fs2 ''newAnimals.txt'' (written ?r2))"
    using arr2 by (rule main_disk)
  have "report (disk ?r2) = report fs2 @ concat (map (animal_line sd) (written ?r2))"
    using a2 by (subst d2) (rule update_report)
  then have rep2: "report (disk ?r2) = report ?fs1 @ concat (map (animal_line sd) (written ?r2))"
    using left by simp
  have rep1: "report ?fs1 = report fs @ concat (map (animal_line sd) (written ?r1))"
    using a by (subst d1) (rule update_report)
  have l1: "length (written ?r1) = length arr"
    using arr by (simp add: main_written length_assign_names)
  have l2: "length (written ?r2) = length arr"
    using arr2 by (simp add: main_written length_assign_names)
  have clean: "\<forall>a \<in> set (written ?r2). one_line sd a"
    using written_one_line [OF sd] by blast
  show ?thesis
  proof (cases "arr = []")
    case True
    with l2 have "written ?r2 = []" by simp
    then have "report (disk ?r2) = report ?fs1"
      using rep2 by simp
    then show ?thesis
      using \<open>written ?r2 = []\<close> by simp
  next
    case False
    with l1 have "written ?r1 \<noteq> []" by auto
    then have "last (report fs @ concat (map (animal_line sd) (written ?r1))) = newline"
      by (rule last_appended_lines)
    then have "last (report ?fs1) = newline"
      using rep1 by simp
    then have "getlines newline (report ?fs1 @ concat (map (animal_line sd) (written ?r2))) =
        getlines newline (report ?fs1) @ map (record_text sd) (written ?r2)"
      using clean by (intro lines_appended) simp_all
    then have "getlines newline (report (disk ?r2)) =
        getlines newline (report ?fs1) @ map (record_text sd) (written ?r2)"
      using rep2 by simp
    then show ?thesis by (simp add: line_count_def)
  qed
qed

lemma run_keeps_arrivals:
  "open_read (disk (main stod sd fs g)) ''arrivingAnimals.txt'' =
     open_read fs ''arrivingAnimals.txt'' \<and>
   appendable (disk (main stod sd fs g)) = appendable fs"
proof (cases "fst (loadArrivingAnimals stod fs ''arrivingAnimals.txt'')")
  case (Inl e)
  then show ?thesis by (simp add: main_terminate)
next
  case (Inr arr)
  then have "disk (main stod sd fs g) =
      fst (updateZooPopulation sd fs ''newAnimals.txt'' (written (main stod sd fs g)))"
    by (rule main_disk)
  then show ?thesis
    by (simp add: update_open_read update_permissions)
qed

text \<open>
  C6. When the report file opens for appending (an absent file is created), the call
  leaves every byte of the old text in place and writes after it, in list order, one text
  per record, each ended by a line feed. When no field of the records is printed with a
  line feed inside, and the old text is empty or ends with a line feed, the lines of the
  new text are the old lines followed by one line per record. Hence, for a run and a
  second run that starts from the report the first one left and reads the same arrivals
  file (the files a run leaves are such a start), the report after the second run has as
  many lines as the report after the first run plus the number of records of the second
  run; the platform is assumed to print no \<open>double\<close> with a line feed in it.
\<close>

theorem updateZooPopulation_appends:
  "(appendable fs filename \<longrightarrow>
      contents (fst (updateZooPopulation show_double fs filename animals)) filename =
        Some ((case contents fs filename of None \<Rightarrow> [] | Some old \<Rightarrow> old) @
              concat (map (animal_line show_double) animals)) \<and>
      (\<forall>a \<in> set animals. animal_line show_double a = record_text show_double a @ [newline])) \<and>
   (appendable fs' ''newAnimals.txt'' \<and> (\<forall>a \<in> set animals'. one_line show_double a) \<and>
    (report fs' = [] \<or> last (report fs') = newline) \<longrightarrow>
      getlines newline (report (fst (updateZooPopulation show_double fs' ''newAnimals.txt'' animals'))) =
        getlines newline (report fs') @ map (record_text show_double) animals') \<and>
   (appendable fs1 ''newAnimals.txt'' \<and> appendable fs2 ''newAnimals.txt'' \<and>
    (\<forall>w. newline \<notin> set (show_double w)) \<and>
    open_read fs2 ''arrivingAnimals.txt'' = open_read fs1 ''arrivingAnimals.txt'' \<and>
    report fs2 = report (disk (main stod show_double fs1 g1)) \<longrightarrow>
      line_count (report (disk (main stod show_double fs2 g2))) =
        line_count (report (disk (main stod show_double fs1 g1))) +
        length (written (main stod show_double fs2 g2))) \<and>
   open_read (disk (main stod show_double fs1 g1)) ''arrivingAnimals.txt'' =
     open_read fs1 ''arrivingAnimals.txt'' \<and>
   appendable (disk (main stod show_double fs1 g1)) = appendable fs1"
  using second_run [of fs1 fs2 show_double stod g1 g2] run_keeps_arrivals [of stod show_double fs1 g1]
  by (simp add: update_contents animal_line_text update_report lines_appended)

lemma show_decimal_no_newline: "newline \<notin> set (show_decimal w)"
proof -
  define a where "a = nat \<bar>fst w\<bar>"
  define padded where
    "padded = replicate (snd w - length (show_nat (a mod 10 ^ snd w))) CHR ''0'' @
              show_nat (a mod 10 ^ snd w)"
  have c: "newline \<noteq> CHR ''-''" "newline \<noteq> CHR ''.''" "newline \<noteq> CHR ''0''"
    by (simp_all add: newline_def)
  have s: "show_decimal w =
      (if fst w < 0 then ''-'' else []) @ show_nat (a div 10 ^ snd w) @
      (if a mod 10 ^ snd w = 0 then []
       else CHR ''.'' # rev (dropWhile (\<lambda>c. c = CHR ''0'') (rev padded)))"
    unfolding show_decimal_def Let_def a_def padded_def ..
  have p: "newline \<notin> set padded"
    unfolding padded_def using c(3) show_nat_no_newline by (auto simp del: replicate_eq_replicate)
  have "set (dropWhile (\<lambda>c. c = CHR ''0'') (rev padded)) \<subseteq> set padded"
    using set_dropWhileD by fastforce
  with p have t: "newline \<notin> set (rev (dropWhile (\<lambda>c. c = CHR ''0'') (rev padded)))"
    by auto
  have w: "newline \<notin> set (show_nat (a div 10 ^ snd w))"
    by (rule show_nat_no_newline)
  show ?thesis
    unfolding s using c(1,2) t w by (simp del: show_nat.simps)
qed

theorem updateZooPopulation_appends_witness:
  "appendable zoo_example ''newAnimals.txt'' \<and>
   contents (fst (updateZooPopulation show_decimal zoo_example ''newAnimals.txt''
       [\<lparr>age = 4, species = ''Hyena'', birthSeason = ''born in spring'', color = ''brown'',
         weight = (455, 1), origin = ''savanna east'', name = ''Scar''\<rparr>])) ''newAnimals.txt'' =
     Some (''Scar, Hyena, 4, born in spring, brown, 45.5, savanna east'' @ [newline]) \<and>
   getlines newline (report (fst (updateZooPopulation show_decimal zoo_example ''newAnimals.txt''
       [\<lparr>age = 4, species = ''Hyena'', birthSeason = ''born in spring'', color = ''brown'',
         weight = (455, 1), origin = ''savanna east'', name = ''Scar''\<rparr>]))) =
     [''Scar, Hyena, 4, born in spring, brown, 45.5, savanna east''] \<and>
   appendable second_example ''newAnimals.txt'' \<and>
   open_read second_example ''arrivingAnimals.txt'' = open_read zoo_example ''arrivingAnimals.txt'' \<and>
   report second_example =
     report (disk (main stod_decimal show_decimal zoo_example (constant_rng 0))) \<and>
   line_count (report (disk (main stod_decimal show_decimal zoo_example (constant_rng 0)))) = 1 \<and>
   length (written (main stod_decimal show_decimal second_example (constant_rng 1))) = 1 \<and>
   line_count (report (disk (main stod_decimal show_decimal second_example (constant_rng 1)))) = 2"
proof -
  let ?a = "\<lparr>age = 4, species = ''Hyena'', birthSeason = ''born in spring'', color = ''brown'',
         weight = (455::int, 1::nat), origin = ''savanna east'', name = ''Scar''\<rparr>"
  have ap: "appendable zoo_example ''newAnimals.txt''"
    and ap2: "appendable second_example ''newAnimals.txt''"
    by (simp_all add: zoo_example_def second_example_def disk_of_def)
  have rt: "record_text show_decimal ?a = ''Scar, Hyena, 4, born in spring, brown, 45.5, savanna east''"
    by code_simp
  have al: "animal_line show_decimal ?a =
      ''Scar, Hyena, 4, born in spring, brown, 45.5, savanna east'' @ [newline]"
    by code_simp
  have ol: "one_line show_decimal ?a"
    by code_simp
  have c0: "contents zoo_example ''newAnimals.txt'' = None" and r0: "report zoo_example = []"
    by code_simp+
  have o2: "open_read second_example ''arrivingAnimals.txt'' =
      open_read zoo_example ''arrivingAnimals.txt''"
    by code_simp
  have r2: "report second_example =
      report (disk (main stod_decimal show_decimal zoo_example (constant_rng 0)))"
    by code_simp
  have n1: "line_count (report (disk (main stod_decimal show_decimal zoo_example (constant_rng 0)))) = 1"
    by code_simp
  have w2: "length (written (main stod_decimal show_decimal second_example (constant_rng 1))) = 1"
    by code_simp
  have sd: "\<forall>w. newline \<notin> set (show_decimal w)"
    by (simp add: show_decimal_no_newline)
  show ?thesis
    using ap ap2 rt al ol c0 r0 o2 r2 n1 w2 sd
      updateZooPopulation_appends [of zoo_example "''newAnimals.txt''" show_decimal "[?a]"
        zoo_example "[?a]" zoo_example second_example stod_decimal "constant_rng 0" "constant_rng 1"]
    by simp
qed

section \<open>The end-to-end scenario\<close>

lemma scenario_catalog:
  "fst (names_lines ([], []) (names_scenario @ e)) =
     [(''Hyena'', [''Spot'', ''Scar'']), (''Lion'', [''Leo'', ''Nala''])]"
  if "e = [] \<or> e = [newline]"
proof -
  have "fst (names_lines ([], []) (names_scenario @ [])) =
     [(''Hyena'', [''Spot'', ''Scar'']), (''Lion'', [''Leo'', ''Nala''])]"
    and "fst (names_lines ([], []) (names_scenario @ [newline])) =
     [(''Hyena'', [''Spot'', ''Scar'']), (''Lion'', [''Leo'', ''Nala''])]"
    by code_simp+
  with that show ?thesis by blast
qed

lemma scenario_lines:
  "getlines newline (arrivals_scenario @ e) = [arrivals_scenario]" if "e = [] \<or> e = [newline]"
proof -
  have "getlines newline (arrivals_scenario @ []) = [arrivals_scenario]"
    and "getlines newline (arrivals_scenario @ [newline]) = [arrivals_scenario]"
    by code_simp+
  with that show ?thesis by blast
qed

lemma scenario_record:
  assumes "stod ''45.5'' = Inr w"
  shows "arrival_list stod [] [] [arrivals_scenario] =
           (Inr [\<lparr>age = 4, species = ''Hyena'', birthSeason = ''born in spring'',
                  color = ''brown'', weight = w, origin = ''savanna east'', name = []\<rparr>], [])"
proof -
  have t: "trim arrivals_scenario = arrivals_scenario"
    by code_simp
  have ne: "arrivals_scenario \<noteq> []"
    by code_simp
  have p: "split_parts [] arrivals_scenario =
             [''4 Hyena'', ''born in spring'', ''brown'', ''45.5'', ''savanna'', ''east'']"
    by code_simp
  have x: "extract_word ''4 Hyena'' = (''4'', '' Hyena'')"
    and i: "stoi ''4'' = Inr 4"
    and g: "getline newline '' Hyena'' = Some ('' Hyena'', [])"
    and s: "trim '' Hyena'' = ''Hyena''"
    by code_simp+
  have "make_animal stod [''4 Hyena'', ''born in spring'', ''brown'', ''45.5'', ''savanna'', ''east''] =
          Inr \<lparr>age = 4, species = ''Hyena'', birthSeason = ''born in spring'',
                  color = ''brown'', weight = w, origin = ''savanna east'', name = []\<rparr>"
    using assms by (simp add: make_animal_def x i g s)
  then show ?thesis
    using t ne p by simp
qed

text \<open>
  C1. Let the names file hold the sections \<open>Hyena Names:\<close> (Spot, Scar) and
  \<open>Lion Names:\<close> (Leo, Nala) and let the arrivals file hold the single line
  \<open>4 Hyena, born in spring, brown, 45.5, savanna, east\<close> (the last line of either file
  ended by a line feed or not). On a platform that reads \<open>45.5\<close> as a \<open>double\<close> and
  prints that \<open>double\<close> as \<open>45.5\<close>, and with a report file that opens for appending,
  the run appends exactly one line to the report, for every state of the random source:
  the new text is the old text followed by
  \<open>N, Hyena, 4, born in spring, brown, 45.5, savanna east\<close> and a line feed, where
  \<open>N\<close> is \<open>Spot\<close> or \<open>Scar\<close>.
\<close>

theorem main_end_to_end:
  assumes names: "open_read fs ''animalNames.txt'' = Some (names_scenario @ e1)"
    and arrivals: "open_read fs ''arrivingAnimals.txt'' = Some (arrivals_scenario @ e2)"
    and ends: "(e1 = [] \<or> e1 = [newline]) \<and> (e2 = [] \<or> e2 = [newline])"
    and app: "appendable fs ''newAnimals.txt''"
    and stod: "stod ''45.5'' = Inr w" and shown: "show_double w = ''45.5''"
  shows "\<exists>N. (N = ''Spot'' \<or> N = ''Scar'') \<and>
           contents (disk (main stod show_double fs g)) ''newAnimals.txt'' =
             Some (report fs @ N @
                   '', Hyena, 4, born in spring, brown, 45.5, savanna east'' @ [newline])"
proof -
  let ?m = "[(''Hyena'', [''Spot'', ''Scar'']), (''Lion'', [''Leo'', ''Nala''])]"
  let ?a = "\<lparr>age = 4, species = ''Hyena'', birthSeason = ''born in spring'',
             color = ''brown'', weight = w, origin = ''savanna east'', name = []\<rparr>"
  let ?N = "[''Spot'', ''Scar''] ! (g 0 mod 2)"
  have cat: "fst (loadAnimalNames fs ''animalNames.txt'') = ?m"
    using names ends by (simp add: loadAnimalNames_def scenario_catalog)
  have arr: "fst (loadArrivingAnimals stod fs ''arrivingAnimals.txt'') = Inr [?a]"
  proof -
    have "loadArrivingAnimals stod fs ''arrivingAnimals.txt'' =
            arrival_list stod [] [] [arrivals_scenario]"
      using arrivals ends
      by (simp add: loadArrivingAnimals_def arrival_lines_list scenario_lines
          del: arrival_list.simps)
    moreover have "arrival_list stod [] [] [arrivals_scenario] = (Inr [?a], [])"
      using stod by (rule scenario_record [of stod w])
    ultimately show ?thesis
      by (simp only: fst_conv)
  qed
  have f: "map_find ''Hyena'' ?m = Some (''Hyena'', [''Spot'', ''Scar''])"
    by (simp add: map_find_def)
  have n: "assignName ''Hyena'' ?m g = (?N, \<lambda>n. g (Suc n))"
    using assignName_exact [OF f, of g] by (simp add: numeral_2_eq_2)
  have w: "written (main stod show_double fs g) = [?a\<lparr>name := ?N\<rparr>]"
    using arr cat n by (simp add: main_written)
  have i: "show_int 4 = ''4''"
    by code_simp
  have "contents (disk (main stod show_double fs g)) ''newAnimals.txt'' =
          Some (report fs @ concat (map (animal_line show_double) [?a\<lparr>name := ?N\<rparr>]))"
    using app w main_disk [OF arr, of show_double g] by (simp add: update_contents report_def)
  then have r: "contents (disk (main stod show_double fs g)) ''newAnimals.txt'' =
          Some (report fs @ ?N @
                '', Hyena, 4, born in spring, brown, 45.5, savanna east'' @ [newline])"
    using shown i by (simp add: animal_line_def)
  have "g 0 mod 2 = 0 \<or> g 0 mod 2 = 1" by arith
  then have "?N = ''Spot'' \<or> ?N = ''Scar''" by auto
  with r show ?thesis by blast
qed

theorem main_end_to_end_witness:
  "open_read zoo_example ''animalNames.txt'' = Some (names_scenario @ [newline]) \<and>
   open_read zoo_example ''arrivingAnimals.txt'' = Some (arrivals_scenario @ [newline]) \<and>
   appendable zoo_example ''newAnimals.txt'' \<and>
   stod_decimal ''45.5'' = Inr (455, 1) \<and> show_decimal (455, 1) = ''45.5'' \<and>
   report zoo_example = [] \<and>
   (\<exists>N. (N = ''Spot'' \<or> N = ''Scar'') \<and>
      contents (disk (main stod_decimal show_decimal zoo_example (constant_rng 1)))
        ''newAnimals.txt'' =
      Some (N @ '', Hyena, 4, born in spring, brown, 45.5, savanna east'' @ [newline]))"
proof -
  have n: "open_read zoo_example ''animalNames.txt'' = Some (names_scenario @ [newline])"
    and a: "open_read zoo_example ''arrivingAnimals.txt'' = Some (arrivals_scenario @ [newline])"
    by (simp_all add: zoo_example_def disk_of_def open_read_def)
  have e: "([newline] = [] \<or> [newline] = [newline]) \<and> ([newline] = [] \<or> [newline] = [newline])"
    by simp
  have p: "appendable zoo_example ''newAnimals.txt''"
    by (simp add: zoo_example_def disk_of_def)
  have s: "stod_decimal ''45.5'' = Inr (455, 1)" and d: "show_decimal (455, 1) = ''45.5''"
    and r: "report zoo_example = []"
    by code_simp+
  show ?thesis
    using n a p s d r
      main_end_to_end [where fs = zoo_example and stod = stod_decimal and w = "(455, 1)"
        and show_double = show_decimal and g = "constant_rng 1", OF n a e p s d]
    by simp
qed

end
